theory Spec2Isabelle
  imports Main "HOL-Library.Monad_Syntax"
begin

section \<open>Python values\<close>

text \<open>
  The parser of \<^verbatim>\<open>services/nlp_parser.py\<close> works on Python strings, integers, floats and
  dictionaries. A Python \<^verbatim>\<open>str\<close> is modelled as a \<^typ>\<open>string\<close> whose characters are the
  code points below 256 (Latin-1); Python integers are \<^typ>\<open>int\<close>; a float is an IEEE 754
  binary64 value; a dictionary is an association list in insertion order with one entry
  per key. Every exception the code can raise is a value \<open>Inl e\<close>.
\<close>

datatype pyerr = ValueError | TypeError | OverflowError | ZeroDivisionError

text \<open>
  \<open>Finite s m e\<close> is the double \<open>(-1)\<^sup>s * m * 2\<^sup>e\<close> in its IEEE form: either
  \<open>2\<^sup>5\<^sup>2 \<le> m < 2\<^sup>5\<^sup>3\<close> and \<open>-1074 \<le> e \<le> 971\<close>, or \<open>m < 2\<^sup>5\<^sup>2\<close> and \<open>e = -1074\<close> (subnormal
  numbers and zero).
\<close>

datatype pyfloat = Finite bool int int | Infinity bool | NaN

datatype pyval = VNone | VInt int | VFloat pyfloat | VStr string

type_synonym 'v dict = "(string \<times> 'v) list"

definition dict_get :: "'v dict \<Rightarrow> string \<Rightarrow> 'v option" where
  "dict_get d k = map_of d k"

definition has_key :: "'v dict \<Rightarrow> string \<Rightarrow> bool" where
  "has_key d k \<longleftrightarrow> k \<in> set (map fst d)"

fun dict_set :: "'v dict \<Rightarrow> string \<Rightarrow> 'v \<Rightarrow> 'v dict" where
  "dict_set [] k v = [(k, v)]"
| "dict_set ((k', v') # d) k v =
     (if k' = k then (k', v) # d else (k', v') # dict_set d k v)"

fun dict_update :: "'v dict \<Rightarrow> 'v dict \<Rightarrow> 'v dict" where
  "dict_update d [] = d"
| "dict_update d ((k, v) # e) = dict_update (dict_set d k v) e"

section \<open>Strings\<close>

definition is_digit :: "char \<Rightarrow> bool" where
  "is_digit c \<longleftrightarrow> c \<in> set ''0123456789''"

text \<open>\<^verbatim>\<open>str.isspace\<close>, which is also the class \<^verbatim>\<open>\s\<close> of \<^verbatim>\<open>re\<close>, below code point 256.\<close>

definition is_space :: "char \<Rightarrow> bool" where
  "is_space c \<longleftrightarrow> c \<in> set [CHR 0x09, CHR 0x0A, CHR 0x0B, CHR 0x0C, CHR 0x0D,
     CHR 0x1C, CHR 0x1D, CHR 0x1E, CHR 0x1F, CHR 0x20, CHR 0x85, CHR 0xA0]"

text \<open>
  \<^verbatim>\<open>str.lower\<close> on one character below code point 256: the letters \<open>A\<close> to \<open>Z\<close> and the
  upper-case letters of Latin-1 (U+00C0 to U+00DE without the sign U+00D7) move up by 32.
\<close>

definition lower_char :: "char \<Rightarrow> char" where
  "lower_char c =
     (let n = (of_char c :: int)
      in if (65 \<le> n \<and> n \<le> 90) \<or> (192 \<le> n \<and> n \<le> 222 \<and> n \<noteq> 215)
         then char_of (n + 32) else c)"

definition lower :: "string \<Rightarrow> string" where
  "lower s = map lower_char s"

definition strip :: "string \<Rightarrow> string" where
  "strip s = rev (dropWhile is_space (rev (dropWhile is_space s)))"

definition starts_with :: "string \<Rightarrow> string \<Rightarrow> bool" where
  "starts_with p s \<longleftrightarrow> take (length p) s = p"

text \<open>The substring test \<^verbatim>\<open>p in s\<close>.\<close>

fun py_in :: "string \<Rightarrow> string \<Rightarrow> bool" where
  "py_in p [] = (p = [])"
| "py_in p (c # cs) = (starts_with p (c # cs) \<or> py_in p cs)"

text \<open>\<^verbatim>\<open>xs.index(x)\<close>; the code calls it only under the guard \<^verbatim>\<open>x in xs\<close>.\<close>

fun index_of :: "'a list \<Rightarrow> 'a \<Rightarrow> nat" where
  "index_of [] x = 0"
| "index_of (y # ys) x = (if y = x then 0 else Suc (index_of ys x))"

definition digit_char :: "int \<Rightarrow> char" where
  "digit_char d = ''0123456789'' ! nat d"

text \<open>The decimal digits of a natural number, given as an integer.\<close>

function str_nat :: "int \<Rightarrow> string" where
  "str_nat n = (if n < 10 then [digit_char n] else str_nat (n div 10) @ [digit_char (n mod 10)])"
  by pat_completeness auto
termination
  by (relation "measure nat") auto

declare str_nat.simps [simp del]

definition str_int :: "int \<Rightarrow> string" where
  "str_int i = (if i < 0 then CHR ''-'' # str_nat (- i) else str_nat i)"

text \<open>
  \<^verbatim>\<open>str(v)\<close>. The shortest round-trip decimal that \<^verbatim>\<open>repr\<close> prints for a float is not
  modelled: it is the parameter \<open>repr_float\<close>.
\<close>

fun py_str :: "(pyfloat \<Rightarrow> string) \<Rightarrow> pyval \<Rightarrow> string" where
  "py_str repr_float VNone = ''None''"
| "py_str repr_float (VInt i) = str_int i"
| "py_str repr_float (VFloat f) = repr_float f"
| "py_str repr_float (VStr s) = s"

text \<open>Truth value of a Python value: \<^verbatim>\<open>None\<close>, zero and the empty string are false.\<close>

fun truthy :: "pyval \<Rightarrow> bool" where
  "truthy VNone = False"
| "truthy (VInt i) = (i \<noteq> 0)"
| "truthy (VFloat (Finite s m e)) = (m \<noteq> 0)"
| "truthy (VFloat f) = True"
| "truthy (VStr s) = (s \<noteq> [])"

text \<open>\<^verbatim>\<open>a or b\<close>.\<close>

definition py_or :: "pyval \<Rightarrow> pyval \<Rightarrow> pyval" where
  "py_or a b = (if truthy a then a else b)"

section \<open>Entity resolver\<close>

definition entity_map :: "(string \<times> string list) list" where
  "entity_map =
    [(''item_name'', [''item'', ''nama'', ''barang'', ''produk'', ''deskripsi'', ''keterangan'']),
     (''quantity'', [''quantity'', ''qty'', ''jumlah'', ''unit'', ''buah'']),
     (''unit_price'', [''harga satuan'', ''harga/unit'', ''harga per unit'', ''satuan'']),
     (''total_price'', [''total'', ''total harga'', ''harga total'', ''amount'', ''harga'',
        ''jumlah pengeluaran'']),
     (''transaction_type'', [''type'', ''tipe'', ''jenis'', ''kategori'']),
     (''profit'', [''laba'', ''profit'', ''keuntungan''])]"

text \<open>The inner loop: the first synonym that occurs among the normalised headers.\<close>

fun first_synonym :: "string list \<Rightarrow> string list \<Rightarrow> string option" where
  "first_synonym headers_lower [] = None"
| "first_synonym headers_lower (synonym # synonyms) =
     (if synonym \<in> set headers_lower then Some synonym
      else first_synonym headers_lower synonyms)"

text \<open>The outer loop over \<^verbatim>\<open>self.entity_map.items()\<close>.\<close>

fun active_loop ::
    "string list \<Rightarrow> string list \<Rightarrow> (string \<times> string list) list \<Rightarrow> string dict \<Rightarrow> string dict"
where
  "active_loop headers headers_lower [] active = active"
| "active_loop headers headers_lower ((entity, synonyms) # rest) active =
     active_loop headers headers_lower rest
       (case first_synonym headers_lower synonyms of
          None \<Rightarrow> active
        | Some synonym \<Rightarrow>
            dict_set active entity (headers ! index_of headers_lower synonym))"

definition get_active_entities :: "string list \<Rightarrow> string dict" where
  "get_active_entities headers =
     (let headers_lower = map (\<lambda>h. strip (lower h)) headers
      in active_loop headers headers_lower entity_map [])"

section \<open>Row projector\<close>

text \<open>The reverse map \<^verbatim>\<open>header_to_entity_map\<close>, filled in the order of the active map.\<close>

fun reverse_loop :: "string dict \<Rightarrow> string dict \<Rightarrow> string dict" where
  "reverse_loop [] header_to_entity_map = header_to_entity_map"
| "reverse_loop ((entity_key, header_name) # rest) header_to_entity_map =
     reverse_loop rest (dict_set header_to_entity_map header_name entity_key)"

definition header_to_entity :: "string list \<Rightarrow> string dict" where
  "header_to_entity headers = reverse_loop (get_active_entities headers) []"

text \<open>The cell written for one header, or \<open>None\<close> when the row is left as it is.\<close>

definition cell_of ::
    "(pyfloat \<Rightarrow> string) \<Rightarrow> string dict \<Rightarrow> pyval dict \<Rightarrow> string \<Rightarrow> string option" where
  "cell_of repr_float header_to_entity_map parsed_data header =
     (case dict_get header_to_entity_map header of
        None \<Rightarrow> None
      | Some entity_key \<Rightarrow>
          (if entity_key \<noteq> [] \<and> has_key parsed_data entity_key
           then Some (py_str repr_float (py_or (the (dict_get parsed_data entity_key)) (VStr [])))
           else None))"

fun row_loop ::
    "(pyfloat \<Rightarrow> string) \<Rightarrow> string dict \<Rightarrow> pyval dict \<Rightarrow> (nat \<times> string) list \<Rightarrow>
     string list \<Rightarrow> string list"
where
  "row_loop repr_float h2e parsed_data [] row_data = row_data"
| "row_loop repr_float h2e parsed_data ((i, header) # rest) row_data =
     row_loop repr_float h2e parsed_data rest
       (case cell_of repr_float h2e parsed_data header of
          None \<Rightarrow> row_data
        | Some cell \<Rightarrow> row_data[i := cell])"

definition to_row_data :: "(pyfloat \<Rightarrow> string) \<Rightarrow> pyval dict \<Rightarrow> string list \<Rightarrow> string list" where
  "to_row_data repr_float parsed_data headers =
     row_loop repr_float (header_to_entity headers) parsed_data
       (enumerate 0 headers) (replicate (length headers) [])"

section \<open>Floats\<close>

text \<open>The number of binary digits of a natural number, given as an integer.\<close>

function bitlen :: "int \<Rightarrow> int" where
  "bitlen n = (if n \<le> 0 then 0 else 1 + bitlen (n div 2))"
  by pat_completeness auto
termination
  by (relation "measure nat") auto

declare bitlen.simps [simp del]

text \<open>The fraction \<open>n / d\<close> rounded to the nearest integer, ties to the even one.\<close>

definition round_half_even :: "int \<Rightarrow> int \<Rightarrow> int" where
  "round_half_even n d =
     (let q = n div d; r = n mod d
      in if 2 * r > d \<or> (2 * r = d \<and> odd q) then q + 1 else q)"

text \<open>Numerator and denominator of \<open>(n / d) * 2\<^sup>x / 2\<^sup>e\<close>.\<close>

definition scaled :: "int \<Rightarrow> int \<Rightarrow> int \<Rightarrow> int \<Rightarrow> int \<times> int" where
  "scaled n d x e = (n * 2 ^ nat (x - e), d * 2 ^ nat (e - x))"

text \<open>
  \<open>fround s n d x\<close> is the double nearest to \<open>(-1)\<^sup>s * (n / d) * 2\<^sup>x\<close> (round to nearest, ties
  to even, 53 bits, gradual underflow, overflow to infinity), for \<open>0 \<le> n\<close> and \<open>0 < d\<close>.
\<close>

definition fround :: "bool \<Rightarrow> int \<Rightarrow> int \<Rightarrow> int \<Rightarrow> pyfloat" where
  "fround s n d x =
     (if n = 0 then Finite s 0 (- 1074)
      else
        let k = bitlen n - bitlen d + x;
            e0 = max (k - 53) (- 1074);
            e = (if 2 ^ 53 \<le> fst (scaled n d x e0) div snd (scaled n d x e0) then e0 + 1 else e0);
            m = round_half_even (fst (scaled n d x e)) (snd (scaled n d x e));
            m' = (if m = 2 ^ 53 then 2 ^ 52 else m);
            e' = (if m = 2 ^ 53 then e + 1 else e)
        in if e' > 971 then Infinity s else Finite s m' e')"

definition is_zero :: "pyfloat \<Rightarrow> bool" where
  "is_zero f = (case f of Finite s m e \<Rightarrow> m = 0 | _ \<Rightarrow> False)"

fun fmul :: "pyfloat \<Rightarrow> pyfloat \<Rightarrow> pyfloat" where
  "fmul NaN b = NaN"
| "fmul a NaN = NaN"
| "fmul (Infinity s) (Infinity t) = Infinity (s \<noteq> t)"
| "fmul (Infinity s) (Finite t n f) = (if n = 0 then NaN else Infinity (s \<noteq> t))"
| "fmul (Finite s m e) (Infinity t) = (if m = 0 then NaN else Infinity (s \<noteq> t))"
| "fmul (Finite s m e) (Finite t n f) = fround (s \<noteq> t) (m * n) 1 (e + f)"

text \<open>Division by a divisor that is not zero.\<close>

fun fdiv :: "pyfloat \<Rightarrow> pyfloat \<Rightarrow> pyfloat" where
  "fdiv NaN b = NaN"
| "fdiv a NaN = NaN"
| "fdiv (Infinity s) (Infinity t) = NaN"
| "fdiv (Infinity s) (Finite t n f) = Infinity (s \<noteq> t)"
| "fdiv (Finite s m e) (Infinity t) = Finite (s \<noteq> t) 0 (- 1074)"
| "fdiv (Finite s m e) (Finite t n f) = fround (s \<noteq> t) m n (e - f)"

text \<open>\<^verbatim>\<open>float(i)\<close> for an integer, as in mixed arithmetic: too large an integer raises.\<close>

definition float_of_int :: "int \<Rightarrow> pyerr + pyfloat" where
  "float_of_int i =
     (case fround (i < 0) \<bar>i\<bar> 1 0 of
        Infinity s \<Rightarrow> Inl OverflowError
      | f \<Rightarrow> Inr f)"

text \<open>The double nearest to an integer, for stating results: \<open>double 2\<close> is \<open>2.0\<close>.\<close>

definition double :: "int \<Rightarrow> pyfloat" where
  "double i = fround (i < 0) \<bar>i\<bar> 1 0"

text \<open>
  \<^verbatim>\<open>f == n\<close> for a float and an integer: Python compares the two values exactly, here
  \<open>m * 2\<^sup>e = n\<close> with the power of two moved to the side where it is an integer.
\<close>

fun float_eq_int :: "pyfloat \<Rightarrow> int \<Rightarrow> bool" where
  "float_eq_int (Finite s m e) n \<longleftrightarrow>
     (if s then - m else m) * 2 ^ nat e = n * 2 ^ nat (- e)"
| "float_eq_int f n \<longleftrightarrow> False"

definition float_mul :: "pyfloat \<Rightarrow> pyfloat \<Rightarrow> pyerr + pyfloat" where
  "float_mul a b = Inr (fmul a b)"

definition float_truediv :: "pyfloat \<Rightarrow> pyfloat \<Rightarrow> pyerr + pyfloat" where
  "float_truediv a b = (if is_zero b then Inl ZeroDivisionError else Inr (fdiv a b))"

definition float_mul_int :: "pyfloat \<Rightarrow> int \<Rightarrow> pyerr + pyfloat" where
  "float_mul_int a i = (case float_of_int i of Inl err \<Rightarrow> Inl err | Inr b \<Rightarrow> float_mul a b)"

definition float_div_int :: "pyfloat \<Rightarrow> int \<Rightarrow> pyerr + pyfloat" where
  "float_div_int a i = (case float_of_int i of Inl err \<Rightarrow> Inl err | Inr b \<Rightarrow> float_truediv a b)"

text \<open>\<^verbatim>\<open>a * b\<close> on the values a record holds.\<close>

fun py_mul :: "pyval \<Rightarrow> pyval \<Rightarrow> pyerr + pyval" where
  "py_mul (VInt a) (VInt b) = Inr (VInt (a * b))"
| "py_mul (VInt a) (VFloat b) =
     (case float_of_int a of Inl err \<Rightarrow> Inl err | Inr fa \<Rightarrow> map_sum id VFloat (float_mul fa b))"
| "py_mul (VFloat a) (VInt b) = map_sum id VFloat (float_mul_int a b)"
| "py_mul (VFloat a) (VFloat b) = map_sum id VFloat (float_mul a b)"
| "py_mul (VStr s) (VInt n) = Inr (VStr (concat (replicate (nat n) s)))"
| "py_mul (VInt n) (VStr s) = Inr (VStr (concat (replicate (nat n) s)))"
| "py_mul a b = Inl TypeError"

text \<open>\<^verbatim>\<open>a > 0\<close>.\<close>

fun py_gt_zero :: "pyval \<Rightarrow> pyerr + bool" where
  "py_gt_zero (VInt a) = Inr (0 < a)"
| "py_gt_zero (VFloat (Finite s m e)) = Inr (\<not> s \<and> m \<noteq> 0)"
| "py_gt_zero (VFloat (Infinity s)) = Inr (\<not> s)"
| "py_gt_zero (VFloat NaN) = Inr False"
| "py_gt_zero a = Inl TypeError"

text \<open>\<^verbatim>\<open>a / b\<close>; the quotient of two integers is rounded once, from the exact fraction.\<close>

fun py_truediv :: "pyval \<Rightarrow> pyval \<Rightarrow> pyerr + pyval" where
  "py_truediv (VInt a) (VInt b) =
     (if b = 0 then Inl ZeroDivisionError
      else case fround ((a < 0) \<noteq> (b < 0)) \<bar>a\<bar> \<bar>b\<bar> 0 of
             Infinity s \<Rightarrow> Inl OverflowError
           | f \<Rightarrow> Inr (VFloat f))"
| "py_truediv (VInt a) (VFloat b) =
     (case float_of_int a of Inl err \<Rightarrow> Inl err | Inr fa \<Rightarrow> map_sum id VFloat (float_truediv fa b))"
| "py_truediv (VFloat a) (VInt b) = map_sum id VFloat (float_div_int a b)"
| "py_truediv (VFloat a) (VFloat b) = map_sum id VFloat (float_truediv a b)"
| "py_truediv a b = Inl TypeError"

section \<open>Reading numbers\<close>

definition digit_val :: "char \<Rightarrow> int" where
  "digit_val c = int (index_of ''0123456789'' c)"

definition int_of_digits :: "string \<Rightarrow> int" where
  "int_of_digits ds = foldl (\<lambda>a c. 10 * a + digit_val c) 0 ds"

text \<open>
  A run of digits in which single underscores may stand between two digits; the result
  is the digits alone. The flag says that the previous character was a digit.
\<close>

fun digitpart :: "bool \<Rightarrow> string \<Rightarrow> string option" where
  "digitpart prev [] = (if prev then Some [] else None)"
| "digitpart prev (c # cs) =
     (if is_digit c then map_option ((#) c) (digitpart True cs)
      else if c = CHR ''_'' \<and> prev \<and> cs \<noteq> [] \<and> is_digit (hd cs) then digitpart False cs
      else None)"

text \<open>
  The interpreter refuses to convert a decimal string of more digits than this (the
  default of CPython 3.11 and later).
\<close>

definition int_max_str_digits :: nat where
  "int_max_str_digits = 4300"

definition is_sign :: "char \<Rightarrow> bool" where
  "is_sign c \<longleftrightarrow> c = CHR ''-'' \<or> c = CHR ''+''"

definition unsigned :: "string \<Rightarrow> string" where
  "unsigned t = (case t of [] \<Rightarrow> [] | c # cs \<Rightarrow> if is_sign c then cs else c # cs)"

definition negative :: "string \<Rightarrow> bool" where
  "negative t = (case t of [] \<Rightarrow> False | c # cs \<Rightarrow> c = CHR ''-'')"

text \<open>
  \<^verbatim>\<open>int\<close> and \<^verbatim>\<open>float\<close> skip white space around the number, but for them the separators
  U+001C to U+001F are not white space.
\<close>

definition is_cspace :: "char \<Rightarrow> bool" where
  "is_cspace c \<longleftrightarrow> c \<in> set [CHR 0x09, CHR 0x0A, CHR 0x0B, CHR 0x0C, CHR 0x0D,
     CHR 0x20, CHR 0x85, CHR 0xA0]"

definition cstrip :: "string \<Rightarrow> string" where
  "cstrip s = rev (dropWhile is_cspace (rev (dropWhile is_cspace s)))"

text \<open>\<^verbatim>\<open>int(s)\<close> in base ten.\<close>

definition py_int :: "string \<Rightarrow> pyerr + int" where
  "py_int s =
     (let t = cstrip s
      in case digitpart False (unsigned t) of
           None \<Rightarrow> Inl ValueError
         | Some ds \<Rightarrow>
             if length ds > int_max_str_digits then Inl ValueError
             else Inr ((if negative t then - 1 else 1) * int_of_digits ds))"

text \<open>
  The mantissa of a float literal: \<open>digits\<close>, \<open>digits.\<close>, \<open>digits.digits\<close> or \<open>.digits\<close>.
  The result is the digits before and after the point.
\<close>

definition mantissa :: "string \<Rightarrow> (string \<times> string) option" where
  "mantissa s =
     (let ip = takeWhile (\<lambda>c. c \<noteq> CHR ''.'') s; r = dropWhile (\<lambda>c. c \<noteq> CHR ''.'') s
      in if r = [] then map_option (\<lambda>ds. (ds, [])) (digitpart False ip)
         else if ip = [] then map_option (\<lambda>fs. ([], fs)) (digitpart False (tl r))
         else if tl r = [] then map_option (\<lambda>ds. (ds, [])) (digitpart False ip)
         else (case (digitpart False ip, digitpart False (tl r)) of
                 (Some ds, Some fs) \<Rightarrow> Some (ds, fs)
               | _ \<Rightarrow> None))"

text \<open>The exponent of a float literal after its \<open>e\<close>: an optional sign and digits.\<close>

definition exponent :: "string \<Rightarrow> int option" where
  "exponent s =
     map_option (\<lambda>ds. (if negative s then - 1 else 1) * int_of_digits ds)
       (digitpart False (unsigned s))"

text \<open>The double nearest to \<open>(-1)\<^sup>s * m * 10\<^sup>x\<close>.\<close>

definition from_decimal :: "bool \<Rightarrow> int \<Rightarrow> int \<Rightarrow> pyfloat" where
  "from_decimal s m x =
     (if 0 \<le> x then fround s (m * 10 ^ nat x) 1 0 else fround s m (10 ^ nat (- x)) 0)"

text \<open>\<^verbatim>\<open>float(s)\<close> for a string.\<close>

definition py_float :: "string \<Rightarrow> pyerr + pyfloat" where
  "py_float s =
     (let t = cstrip s; neg = negative t; body = lower (unsigned t);
          m = takeWhile (\<lambda>c. c \<noteq> CHR ''e'') body; r = dropWhile (\<lambda>c. c \<noteq> CHR ''e'') body
      in if body = ''inf'' \<or> body = ''infinity'' then Inr (Infinity neg)
         else if body = ''nan'' then Inr NaN
         else case mantissa m of
                None \<Rightarrow> Inl ValueError
              | Some (ds, fs) \<Rightarrow>
                  (case (if r = [] then Some 0 else exponent (tl r)) of
                     None \<Rightarrow> Inl ValueError
                   | Some x \<Rightarrow>
                       Inr (from_decimal neg (int_of_digits (ds @ fs)) (x - int (length fs)))))"

section \<open>Regular expressions\<close>

text \<open>
  Each pattern of the parser is a matcher: a function from the text at a position to the
  result of a match that starts there, or \<open>None\<close>. The patterns are such that the greedy
  choice at every repetition, and the first alternative that matches, is the match the
  backtracking engine of \<^verbatim>\<open>re\<close> returns: what follows a repetition cannot start with a
  character the repetition accepts, and no two alternatives match at one position.
\<close>

text \<open>A literal, as it is.\<close>

definition lit :: "string \<Rightarrow> string \<Rightarrow> string option" where
  "lit p s = (if starts_with p s then Some (drop (length p) s) else None)"

text \<open>A literal in lower case under \<^verbatim>\<open>re.IGNORECASE\<close>.\<close>

fun lit_ci :: "string \<Rightarrow> string \<Rightarrow> string option" where
  "lit_ci [] s = Some s"
| "lit_ci (p # ps) [] = None"
| "lit_ci (p # ps) (c # cs) = (if lower_char c = p then lit_ci ps cs else None)"

text \<open>\<^verbatim>\<open>p1|p2|...\<close> for literals.\<close>

fun lit_alts :: "(string \<Rightarrow> string \<Rightarrow> string option) \<Rightarrow> string list \<Rightarrow> string \<Rightarrow> string option"
where
  "lit_alts litm [] s = None"
| "lit_alts litm (p # ps) s =
     (case litm p s of Some rest \<Rightarrow> Some rest | None \<Rightarrow> lit_alts litm ps s)"

text \<open>\<^verbatim>\<open>\s*\<close>, \<^verbatim>\<open>\s+\<close> and \<^verbatim>\<open>(\d+)\<close>.\<close>

definition spaces0 :: "string \<Rightarrow> string" where
  "spaces0 s = dropWhile is_space s"

definition spaces1 :: "string \<Rightarrow> string option" where
  "spaces1 s = (case s of [] \<Rightarrow> None | c # cs \<Rightarrow> if is_space c then Some (spaces0 cs) else None)"

definition digits1 :: "string \<Rightarrow> (string \<times> string) option" where
  "digits1 s =
     (if takeWhile is_digit s = [] then None
      else Some (takeWhile is_digit s, dropWhile is_digit s))"

text \<open>\<^verbatim>\<open>re.search\<close>: the match at the leftmost position that has one.\<close>

fun re_search :: "(string \<Rightarrow> 'a option) \<Rightarrow> string \<Rightarrow> 'a option" where
  "re_search m [] = m []"
| "re_search m (c # cs) =
     (case m (c # cs) of Some r \<Rightarrow> Some r | None \<Rightarrow> re_search m cs)"

text \<open>
  \<^verbatim>\<open>re.sub(pattern, '', s)\<close> for a matcher that returns the text after the match: every
  match is cut out, left to right, and the search goes on after it. The counter is the
  number of characters of the current match that are still to be dropped.
\<close>

fun re_delete :: "(string \<Rightarrow> string option) \<Rightarrow> nat \<Rightarrow> string \<Rightarrow> string" where
  "re_delete m skip [] = []"
| "re_delete m (Suc skip) (c # cs) = re_delete m skip cs"
| "re_delete m 0 (c # cs) =
     (case m (c # cs) of
        None \<Rightarrow> c # re_delete m 0 cs
      | Some rest \<Rightarrow>
          if length rest < length (c # cs) then re_delete m (length cs - length rest) cs
          else c # re_delete m 0 cs)"

text \<open>\<^verbatim>\<open>s.replace(old, '', 1)\<close>.\<close>

fun remove_first :: "string \<Rightarrow> string \<Rightarrow> string" where
  "remove_first old [] = []"
| "remove_first old (c # cs) =
     (if starts_with old (c # cs) then drop (length old) (c # cs)
      else c # remove_first old cs)"

text \<open>\<^verbatim>\<open>s.split(sep)\<close> for a separator of one character.\<close>

fun split_on :: "char \<Rightarrow> string \<Rightarrow> string list" where
  "split_on sep [] = [[]]"
| "split_on sep (c # cs) =
     (if c = sep then [] # split_on sep cs
      else (case split_on sep cs of [] \<Rightarrow> [[c]] | p # ps \<Rightarrow> (c # p) # ps))"

text \<open>
  \<^verbatim>\<open>(\d+)\s+hari\s+yang\s+lalu\<close>: group 1 and the text after the match. The literals are
  matched by \<open>litm\<close>: as they are on the lower-cased text, ignoring case on the original.
\<close>

definition days_ago ::
    "(string \<Rightarrow> string \<Rightarrow> string option) \<Rightarrow> string \<Rightarrow> (string \<times> string) option" where
  "days_ago litm s =
     do {
       (ds, s1) \<leftarrow> digits1 s;
       s2 \<leftarrow> spaces1 s1;
       s3 \<leftarrow> litm ''hari'' s2;
       s4 \<leftarrow> spaces1 s3;
       s5 \<leftarrow> litm ''yang'' s4;
       s6 \<leftarrow> spaces1 s5;
       s7 \<leftarrow> litm ''lalu'' s6;
       Some (ds, s7)
     }"

text \<open>\<^verbatim>\<open>(\d+\s+hari\s+yang\s+lalu|kemarin|hari\s+ini)\s*\<close>, ignoring case: the text after the match.\<close>

definition date_phrase :: "string \<Rightarrow> string option" where
  "date_phrase s =
     map_option spaces0
       (case days_ago lit_ci s of
          Some (ds, rest) \<Rightarrow> Some rest
        | None \<Rightarrow>
            (case lit_ci ''kemarin'' s of
               Some rest \<Rightarrow> Some rest
             | None \<Rightarrow> do { s1 \<leftarrow> lit_ci ''hari'' s; s2 \<leftarrow> spaces1 s1; lit_ci ''ini'' s2 }))"

text \<open>\<^verbatim>\<open>(\d+)\s*(?:unit|buah|pcs)\<close>, ignoring case: group 1 and group 0.\<close>

definition quantity_re :: "string \<Rightarrow> (string \<times> string) option" where
  "quantity_re s =
     do {
       (ds, s1) \<leftarrow> digits1 s;
       s2 \<leftarrow> lit_alts lit_ci [''unit'', ''buah'', ''pcs''] (spaces0 s1);
       Some (ds, take (length s - length s2) s)
     }"

definition is_price_char :: "char \<Rightarrow> bool" where
  "is_price_char c \<longleftrightarrow> is_digit c \<or> c = CHR ''.'' \<or> c = CHR '',''"

text \<open>\<^verbatim>\<open>(?:jt|juta|rb|ribu|k)?\<close>, ignoring case: the text after it.\<close>

definition magnitude_suffix :: "string \<Rightarrow> string" where
  "magnitude_suffix s =
     (case lit_alts lit_ci [''jt'', ''juta'', ''rb'', ''ribu'', ''k''] s of
        Some rest \<Rightarrow> rest
      | None \<Rightarrow> s)"

text \<open>\<^verbatim>\<open>(?:\s*\/\s*\d+)?\<close>: the text after it.\<close>

definition per_item_suffix :: "string \<Rightarrow> string" where
  "per_item_suffix s =
     (case do { s1 \<leftarrow> lit ''/'' (spaces0 s); (ds, s2) \<leftarrow> digits1 (spaces0 s1); Some s2 } of
        Some rest \<Rightarrow> rest
      | None \<Rightarrow> s)"

text \<open>
  \<^verbatim>\<open>(?:harga|seharga|senilai)\s+([\d.,]+(?:jt|juta|rb|ribu|k)?(?:\s*\/\s*\d+)?)\<close>, ignoring
  case: group 1 and group 0.
\<close>

definition price_re :: "string \<Rightarrow> (string \<times> string) option" where
  "price_re s =
     do {
       s1 \<leftarrow> lit_alts lit_ci [''harga'', ''seharga'', ''senilai''] s;
       s2 \<leftarrow> spaces1 s1;
       (if takeWhile is_price_char s2 = [] then None
        else
          let s5 = per_item_suffix (magnitude_suffix (dropWhile is_price_char s2))
          in Some (take (length s2 - length s5) s2, take (length s - length s5) s))
     }"

section \<open>Price tokens\<close>

text \<open>The handler \<^verbatim>\<open>except (ValueError, TypeError): return {}\<close>.\<close>

definition except_value_type :: "pyerr \<Rightarrow> pyerr + pyfloat dict" where
  "except_value_type err = (if err = ValueError \<or> err = TypeError then Inr [] else Inl err)"

text \<open>The multiplier of the magnitude suffix, and the text without the suffix.\<close>

definition strip_magnitude :: "string \<Rightarrow> int \<times> string" where
  "strip_magnitude main_price_str =
     (if py_in ''jt'' main_price_str \<or> py_in ''juta'' main_price_str
      then (1000000, re_delete (lit_alts lit [''jt'', ''juta'']) 0 main_price_str)
      else if py_in ''rb'' main_price_str \<or> py_in ''ribu'' main_price_str
              \<or> py_in ''k'' main_price_str
      then (1000, re_delete (lit_alts lit [''rb'', ''ribu'', ''k'']) 0 main_price_str)
      else (1, main_price_str))"

text \<open>The body of the \<^verbatim>\<open>try\<close> block.\<close>

definition price_fields :: "string \<Rightarrow> int \<Rightarrow> int \<Rightarrow> pyerr + pyfloat dict" where
  "price_fields main_price_str multiplier per_item_count =
     (case py_float (strip main_price_str) of
        Inl err \<Rightarrow> Inl err
      | Inr f \<Rightarrow>
          (case float_mul_int f multiplier of
             Inl err \<Rightarrow> Inl err
           | Inr base_price \<Rightarrow>
               if per_item_count > 1
               then (case float_div_int base_price per_item_count of
                       Inl err \<Rightarrow> Inl err
                     | Inr unit \<Rightarrow> Inr [(''total_price'', base_price), (''unit_price'', unit)])
               else Inr [(''unit_price'', base_price)]))"

definition parse_price_part :: "string \<Rightarrow> pyerr + pyfloat dict" where
  "parse_price_part price_str =
     (if price_str = [] then Inr []
      else
        let parts = split_on CHR ''/'' (filter (\<lambda>c. c \<noteq> CHR '','') (lower price_str));
            main_price_str = hd parts
        in case (if length parts > 1 then py_int (parts ! 1) else Inr 1) of
             Inl err \<Rightarrow> Inl err
           | Inr per_item_count \<Rightarrow>
               (case price_fields (snd (strip_magnitude main_price_str))
                       (fst (strip_magnitude main_price_str)) per_item_count of
                  Inl err \<Rightarrow> except_value_type err
                | Inr fields \<Rightarrow> Inr fields))"

section \<open>Relative dates\<close>

text \<open>
  A \<^verbatim>\<open>datetime\<close>: the proleptic Gregorian ordinal of its date (day 1 is 0001-01-01, the
  last day is 3652059) and its time of day in microseconds.
\<close>

record datetime =
  date_ordinal :: int
  day_time :: int

text \<open>\<^verbatim>\<open>now - timedelta(days=days)\<close>.\<close>

definition minus_days :: "datetime \<Rightarrow> int \<Rightarrow> pyerr + datetime" where
  "minus_days now days =
     (if \<bar>days\<bar> > 999999999 then Inl OverflowError
      else if date_ordinal now - days < 1 \<or> date_ordinal now - days > 3652059
      then Inl OverflowError
      else Inr (now\<lparr>date_ordinal := date_ordinal now - days\<rparr>))"

text \<open>The date a phrase of the text stands for, if there is one.\<close>

definition relative_date :: "datetime \<Rightarrow> string \<Rightarrow> pyerr + datetime option" where
  "relative_date now text_lower =
     (case re_search (days_ago lit) text_lower of
        Some (g1, rest) \<Rightarrow>
          (case py_int g1 of
             Inl err \<Rightarrow> Inl err
           | Inr days \<Rightarrow> map_sum id Some (minus_days now days))
      | None \<Rightarrow>
          if py_in ''kemarin'' text_lower then map_sum id Some (minus_days now 1)
          else if py_in ''hari ini'' text_lower then Inr (Some now)
          else Inr None)"

definition parse_relative_date :: "datetime \<Rightarrow> string \<Rightarrow> pyerr + (datetime \<times> string)" where
  "parse_relative_date now text =
     (case relative_date now (lower text) of
        Inl err \<Rightarrow> Inl err
      | Inr None \<Rightarrow> Inr (now, text)
      | Inr (Some date) \<Rightarrow> Inr (date, strip (re_delete date_phrase 0 text)))"

section \<open>Transaction parser\<close>

text \<open>Stage 2: the quantity.\<close>

definition quantity_stage ::
    "(string \<times> string) option \<Rightarrow> pyval dict \<times> string \<Rightarrow> pyerr + (pyval dict \<times> string)" where
  "quantity_stage quantity_match st =
     (case quantity_match of
        None \<Rightarrow> Inr st
      | Some (g1, g0) \<Rightarrow>
          (case py_int g1 of
             Inl err \<Rightarrow> Inl err
           | Inr q \<Rightarrow> Inr (dict_set (fst st) ''quantity'' (VInt q), remove_first g0 (snd st))))"

text \<open>Stage 2: the price.\<close>

definition price_stage ::
    "(string \<times> string) option \<Rightarrow> pyval dict \<times> string \<Rightarrow> pyerr + (pyval dict \<times> string)" where
  "price_stage price_match st =
     (case price_match of
        None \<Rightarrow> Inr st
      | Some (g1, g0) \<Rightarrow>
          (case parse_price_part g1 of
             Inl err \<Rightarrow> Inl err
           | Inr price_data \<Rightarrow>
               Inr (dict_update (fst st) (map (\<lambda>(k, f). (k, VFloat f)) price_data),
                    remove_first g0 (snd st))))"

text \<open>Stage 3: the transaction type.\<close>

definition infer_type :: "string \<Rightarrow> string option" where
  "infer_type clean_text =
     (if list_ex (\<lambda>word. py_in word (lower clean_text)) [''terjual'', ''dijual'', ''laku'']
      then Some ''sold''
      else if list_ex (\<lambda>word. py_in word (lower clean_text)) [''beli'', ''dibeli'', ''membeli'']
      then Some ''bought''
      else if list_ex (\<lambda>word. py_in word (lower clean_text)) [''biaya'', ''pengeluaran'']
      then Some ''expense''
      else None)"

text \<open>Stage 4: the item name.\<close>

definition item_name_of :: "string \<Rightarrow> string" where
  "item_name_of clean_text =
     strip (re_delete
       (lit_alts lit_ci [''terjual'', ''dijual'', ''laku'', ''beli'', ''dibeli'', ''membeli'',
          ''biaya'', ''pengeluaran'']) 0 clean_text)"

text \<open>
  Stages 1 to 4 of \<^verbatim>\<open>parse_transaction\<close>. The clock and the rendering of a \<^verbatim>\<open>datetime\<close> by
  \<^verbatim>\<open>strftime("%Y-%m-%d %H:%M:%S")\<close> are parameters.
\<close>

definition extract_fields ::
    "(datetime \<Rightarrow> string) \<Rightarrow> datetime \<Rightarrow> string \<Rightarrow> pyerr + pyval dict" where
  "extract_fields strftime now text =
     (case parse_relative_date now text of
        Inl err \<Rightarrow> Inl err
      | Inr (transaction_date, clean_text) \<Rightarrow>
          (case quantity_stage (re_search quantity_re clean_text)
                  ([(''timestamp'', VStr (strftime transaction_date))], clean_text) of
             Inl err \<Rightarrow> Inl err
           | Inr st1 \<Rightarrow>
               (case price_stage (re_search price_re clean_text) st1 of
                  Inl err \<Rightarrow> Inl err
                | Inr (results, clean_text) \<Rightarrow>
                    Inr (dict_set
                           (case infer_type clean_text of
                              None \<Rightarrow> results
                            | Some t \<Rightarrow> dict_set results ''transaction_type'' (VStr t))
                           ''item_name'' (VStr (item_name_of clean_text))))))"

text \<open>\<^verbatim>\<open>results.get(key)\<close>.\<close>

definition get_or_none :: "pyval dict \<Rightarrow> string \<Rightarrow> pyval" where
  "get_or_none d k = (case dict_get d k of None \<Rightarrow> VNone | Some v \<Rightarrow> v)"

text \<open>The first statement of stage 5: the total from quantity and unit price.\<close>

definition reconcile_total :: "string dict \<Rightarrow> pyval dict \<Rightarrow> pyerr + pyval dict" where
  "reconcile_total active_entities results =
     (let qty = get_or_none results ''quantity'';
          unit_price = get_or_none results ''unit_price'';
          total_price = get_or_none results ''total_price''
      in if truthy qty \<and> truthy unit_price \<and> has_key active_entities ''total_price''
            \<and> \<not> truthy total_price
         then map_sum id (dict_set results ''total_price'') (py_mul qty unit_price)
         else Inr results)"

text \<open>
  The second statement of stage 5: the unit price from total and quantity. It tests the
  values read before the first statement ran.
\<close>

definition reconcile_unit ::
    "string dict \<Rightarrow> pyval dict \<Rightarrow> pyval dict \<Rightarrow> pyerr + pyval dict" where
  "reconcile_unit active_entities results0 results =
     (let qty = get_or_none results0 ''quantity'';
          unit_price = get_or_none results0 ''unit_price'';
          total_price = get_or_none results0 ''total_price''
      in if truthy qty \<and> truthy total_price \<and> has_key active_entities ''unit_price''
            \<and> \<not> truthy unit_price
         then (case py_gt_zero qty of
                 Inl err \<Rightarrow> Inl err
               | Inr positive \<Rightarrow>
                   if positive
                   then map_sum id (dict_set results ''unit_price'') (py_truediv total_price qty)
                   else Inr (dict_set results ''unit_price'' (VInt 0)))
         else Inr results)"

text \<open>Stage 5 of \<^verbatim>\<open>parse_transaction\<close>.\<close>

definition reconcile :: "string dict \<Rightarrow> pyval dict \<Rightarrow> pyerr + pyval dict" where
  "reconcile active_entities results =
     (case reconcile_total active_entities results of
        Inl err \<Rightarrow> Inl err
      | Inr results1 \<Rightarrow> reconcile_unit active_entities results results1)"

definition parse_transaction ::
    "(datetime \<Rightarrow> string) \<Rightarrow> datetime \<Rightarrow> string \<Rightarrow> string list \<Rightarrow> pyerr + pyval dict" where
  "parse_transaction strftime now text headers =
     (let active_entities = get_active_entities headers
      in case extract_fields strftime now text of
           Inl err \<Rightarrow> Inl err
         | Inr results \<Rightarrow> reconcile active_entities results)"

text \<open>
  The two calls of \<^verbatim>\<open>MessageHandler._handle_input_data\<close>: the text of a message is parsed and
  the record is projected onto the headers of the sheet.
\<close>

definition parse_and_project ::
    "(datetime \<Rightarrow> string) \<Rightarrow> (pyfloat \<Rightarrow> string) \<Rightarrow> datetime \<Rightarrow> string \<Rightarrow> string list \<Rightarrow>
     pyerr + string list" where
  "parse_and_project strftime repr_float now text headers =
     (case parse_transaction strftime now text headers of
        Inl err \<Rightarrow> Inl err
      | Inr parsed_data \<Rightarrow> Inr (to_row_data repr_float parsed_data headers))"

section \<open>Notions for stating the claims\<close>

text \<open>
  A text without the separators U+001C to U+001F: all its white space is white space for
  \<^verbatim>\<open>int\<close> and \<^verbatim>\<open>float\<close> too.
\<close>

definition no_separators :: "string \<Rightarrow> bool" where
  "no_separators s \<longleftrightarrow> list_all (\<lambda>c. is_cspace c \<or> \<not> is_space c) s"

text \<open>The text that the price-token parser hands to \<^verbatim>\<open>float\<close>.\<close>

definition numeric_remainder :: "string \<Rightarrow> string" where
  "numeric_remainder price_str =
     strip (snd (strip_magnitude
       (hd (split_on CHR ''/'' (filter (\<lambda>c. c \<noteq> CHR '','') (lower price_str))))))"

text \<open>
  The numeric fields as the extraction stages leave them: the quantity is a natural
  number and the prices are floats.
\<close>

definition is_count :: "pyval option \<Rightarrow> bool" where
  "is_count v = (case v of None \<Rightarrow> True | Some (VInt q) \<Rightarrow> 0 \<le> q | Some _ \<Rightarrow> False)"

definition is_price :: "pyval option \<Rightarrow> bool" where
  "is_price v = (case v of None \<Rightarrow> True | Some (VFloat f) \<Rightarrow> True | Some _ \<Rightarrow> False)"

definition well_typed :: "pyval dict \<Rightarrow> bool" where
  "well_typed results \<longleftrightarrow>
     is_count (dict_get results ''quantity'') \<and> is_price (dict_get results ''unit_price'')
     \<and> is_price (dict_get results ''total_price'')"

section \<open>A sample runtime\<close>

text \<open>
  Stand-ins for the parameters, for evaluating the parser on examples: a rendering of
  floats, a rendering of dates, and a clock.
\<close>

definition sample_repr :: "pyfloat \<Rightarrow> string" where
  "sample_repr f = ''<float>''"

definition sample_strftime :: "datetime \<Rightarrow> string" where
  "sample_strftime d = ''day '' @ str_int (date_ordinal d)"

definition sample_now :: datetime where
  "sample_now = \<lparr>date_ordinal = 740000, day_time = 0\<rparr>"

section \<open>Row projector: lemmas\<close>

lemma row_loop_length: "length (row_loop rf h2e pd ihs row) = length row"
  by (induction ihs arbitrary: row) (auto split: option.splits)

lemma row_loop_nth:
  "n + length hs \<le> length row \<Longrightarrow> i < length row \<Longrightarrow>
   row_loop rf h2e pd (enumerate n hs) row ! i =
     (if n \<le> i \<and> i < n + length hs
      then (case cell_of rf h2e pd (hs ! (i - n)) of None \<Rightarrow> row ! i | Some c \<Rightarrow> c)
      else row ! i)"
proof (induction hs arbitrary: n row)
  case Nil
  then show ?case by auto
next
  case (Cons h hs)
  let ?row = "case cell_of rf h2e pd h of None \<Rightarrow> row | Some cell \<Rightarrow> row[n := cell]"
  have len: "length ?row = length row" by (simp split: option.splits)
  have step: "row_loop rf h2e pd (enumerate n (h # hs)) row ! i
      = row_loop rf h2e pd (enumerate (Suc n) hs) ?row ! i"
    by simp
  have ih: "row_loop rf h2e pd (enumerate (Suc n) hs) ?row ! i =
     (if Suc n \<le> i \<and> i < Suc n + length hs
      then (case cell_of rf h2e pd (hs ! (i - Suc n)) of None \<Rightarrow> ?row ! i | Some c \<Rightarrow> c)
      else ?row ! i)"
    using Cons.prems len by (intro Cons.IH) auto
  show ?case
  proof (cases "i = n")
    case True
    then show ?thesis using step ih Cons.prems by (auto split: option.splits)
  next
    case False
    then have "?row ! i = row ! i" by (auto split: option.splits)
    moreover have "i > n \<Longrightarrow> (h # hs) ! (i - n) = hs ! (i - Suc n)"
      by (simp add: nth_Cons')
    ultimately show ?thesis using step ih False Cons.prems
      by (auto split: option.splits)
  qed
qed

lemma to_row_data_nth:
  "i < length hs \<Longrightarrow>
   to_row_data rf pd hs ! i =
     (case cell_of rf (header_to_entity hs) pd (hs ! i) of None \<Rightarrow> [] | Some c \<Rightarrow> c)"
  unfolding to_row_data_def by (subst row_loop_nth) (auto split: option.splits)

lemma has_key_dict_get: "has_key d k \<longleftrightarrow> dict_get d k \<noteq> None"
  by (simp add: has_key_def dict_get_def map_of_eq_None_iff)

section \<open>Entity resolver: lemmas\<close>

lemma dict_get_dict_set:
  "dict_get (dict_set d k v) k' = (if k' = k then Some v else dict_get d k')"
  by (induction d) (auto simp: dict_get_def)

lemma set_dict_set: "set (dict_set d k v) \<subseteq> insert (k, v) (set d)"
  by (induction d) (auto split: if_splits)

lemma keys_dict_set:
  "map fst (dict_set d k v) = (if k \<in> set (map fst d) then map fst d else map fst d @ [k])"
  by (induction d) (fastforce simp: image_iff)+

lemma distinct_dict_set: "distinct (map fst d) \<Longrightarrow> distinct (map fst (dict_set d k v))"
  by (simp add: keys_dict_set)

lemma first_synonym_Some:
  "first_synonym hl syns = Some s \<Longrightarrow> s \<in> set syns \<and> s \<in> set hl"
  by (induction syns) (auto split: if_splits)

lemma index_of_map:
  "s \<in> set (map f hs) \<Longrightarrow> index_of (map f hs) s < length hs \<and> f (hs ! index_of (map f hs) s) = s"
  by (induction hs) auto

lemma active_loop_entries:
  "(k, h) \<in> set (active_loop hs hl rest active) \<Longrightarrow>
   (k, h) \<in> set active \<or>
   (\<exists>syns s. (k, syns) \<in> set rest \<and> first_synonym hl syns = Some s \<and> h = hs ! index_of hl s)"
proof (induction rest arbitrary: active)
  case Nil
  then show ?case by simp
next
  case (Cons a rest)
  obtain e syns where a: "a = (e, syns)" by (cases a)
  show ?case
  proof (cases "first_synonym hl syns")
    case None
    then show ?thesis using Cons.IH[of active] Cons.prems a by auto
  next
    case (Some s)
    let ?act = "dict_set active e (hs ! index_of hl s)"
    from Cons.prems a Some have "(k, h) \<in> set (active_loop hs hl rest ?act)" by simp
    from Cons.IH[OF this] show ?thesis
      using set_dict_set[of active e "hs ! index_of hl s"] a Some by auto
  qed
qed

lemma active_loop_distinct:
  "distinct (map fst active) \<Longrightarrow> distinct (map fst (active_loop hs hl rest active))"
proof (induction rest arbitrary: active)
  case Nil
  then show ?case by simp
next
  case (Cons a rest)
  obtain e syns where a: "a = (e, syns)" by (cases a)
  show ?case using Cons a by (auto split: option.splits intro: distinct_dict_set)
qed

lemma active_entry:
  assumes "(k, h) \<in> set (get_active_entities hs)"
  shows "\<exists>syns s. (k, syns) \<in> set entity_map \<and> s \<in> set syns \<and> h \<in> set hs
           \<and> strip (lower h) = s"
proof -
  let ?hl = "map (\<lambda>h. strip (lower h)) hs"
  from assms have "(k, h) \<in> set (active_loop hs ?hl entity_map [])"
    by (simp add: get_active_entities_def)
  from active_loop_entries[OF this] obtain syns s where
    e: "(k, syns) \<in> set entity_map" and f: "first_synonym ?hl syns = Some s"
    and h: "h = hs ! index_of ?hl s"
    by auto
  from first_synonym_Some[OF f] have s: "s \<in> set syns" "s \<in> set ?hl" by auto
  from index_of_map[OF s(2)] h have "h \<in> set hs" "strip (lower h) = s" by auto
  with e s show ?thesis by blast
qed

lemma synonyms_disjoint_all:
  "\<forall>(k1, syns1) \<in> set entity_map. \<forall>(k2, syns2) \<in> set entity_map.
     \<forall>s \<in> set syns1. s \<in> set syns2 \<longrightarrow> k1 = k2"
  by code_simp

lemma synonyms_disjoint:
  "(k1, syns1) \<in> set entity_map \<Longrightarrow> (k2, syns2) \<in> set entity_map \<Longrightarrow>
   s \<in> set syns1 \<Longrightarrow> s \<in> set syns2 \<Longrightarrow> k1 = k2"
  using synonyms_disjoint_all by fast


lemma entity_key_nonempty: "(k, syns) \<in> set entity_map \<Longrightarrow> k \<noteq> []"
  by (auto simp: entity_map_def)

lemma reverse_loop_get:
  "dict_get (reverse_loop A acc) h = Some k \<Longrightarrow> (k, h) \<in> set A \<or> dict_get acc h = Some k"
proof (induction A arbitrary: acc)
  case Nil
  then show ?case by simp
next
  case (Cons a A)
  obtain k0 h0 where a: "a = (k0, h0)" by (cases a)
  from Cons.prems a have "dict_get (reverse_loop A (dict_set acc h0 k0)) h = Some k" by simp
  from Cons.IH[OF this] show ?case using a by (auto simp: dict_get_dict_set split: if_splits)
qed

lemma reverse_loop_other:
  "h \<notin> snd ` set A \<Longrightarrow> dict_get (reverse_loop A acc) h = dict_get acc h"
proof (induction A arbitrary: acc)
  case Nil
  then show ?case by simp
next
  case (Cons a A)
  obtain k0 h0 where a: "a = (k0, h0)" by (cases a)
  with Cons show ?case by (auto simp: dict_get_dict_set)
qed

lemma reverse_loop_defined:
  "h \<in> snd ` set A \<Longrightarrow> \<exists>k. dict_get (reverse_loop A acc) h = Some k \<and> (k, h) \<in> set A"
proof (induction A arbitrary: acc)
  case Nil
  then show ?case by simp
next
  case (Cons a A)
  obtain k0 h0 where a: "a = (k0, h0)" by (cases a)
  show ?case
  proof (cases "h \<in> snd ` set A")
    case True
    from Cons.IH[OF True, of "dict_set acc h0 k0"] a show ?thesis by auto
  next
    case False
    with Cons.prems a have h: "h = h0" by auto
    from reverse_loop_other[OF False, of "dict_set acc h0 k0"] a h show ?thesis
      by (auto simp: dict_get_dict_set)
  qed
qed

lemma header_to_entity_entry:
  "dict_get (header_to_entity H) h = Some k \<Longrightarrow> (k, h) \<in> set (get_active_entities H)"
  unfolding header_to_entity_def by (drule reverse_loop_get) (simp add: dict_get_def)

lemma active_keys_distinct: "distinct (map fst (get_active_entities H))"
  unfolding get_active_entities_def Let_def by (rule active_loop_distinct) simp

lemma active_injective:
  assumes "(k1, h) \<in> set (get_active_entities H)" "(k2, h) \<in> set (get_active_entities H)"
  shows "k1 = k2"
proof -
  from active_entry[OF assms(1)] obtain syns1 where
    1: "(k1, syns1) \<in> set entity_map" "strip (lower h) \<in> set syns1" by auto
  from active_entry[OF assms(2)] obtain syns2 where
    2: "(k2, syns2) \<in> set entity_map" "strip (lower h) \<in> set syns2" by auto
  from synonyms_disjoint[OF 1(1) 2(1) 1(2) 2(2)] show ?thesis .
qed

lemma active_headers_distinct: "distinct (map snd (get_active_entities H))"
proof -
  have "distinct (get_active_entities H)"
    using active_keys_distinct[of H] by (rule distinct_map[THEN iffD1, THEN conjunct1])
  moreover have "inj_on snd (set (get_active_entities H))"
    by (auto simp: inj_on_def dest: active_injective)
  ultimately show ?thesis by (simp add: distinct_map)
qed

lemma header_to_entity_inverse:
  assumes "(k, h) \<in> set (get_active_entities H)"
  shows "dict_get (header_to_entity H) h = Some k"
proof -
  have "h \<in> snd ` set (get_active_entities H)" using assms by force
  from reverse_loop_defined[OF this, of "[]"] obtain k' where
    k': "dict_get (header_to_entity H) h = Some k'" "(k', h) \<in> set (get_active_entities H)"
    by (auto simp: header_to_entity_def)
  from active_injective[OF k'(2) assms] k'(1) show ?thesis by simp
qed

section \<open>Claims on the resolver and the projector\<close>

text \<open>
  Claim C9. For every header list, every entry of the active entity map has a value that
  is one of the headers passed in (in its original casing); its key is an entity one of
  whose synonyms equals some header after lower-casing and trimming; and the map is
  injective: no key and no header occurs twice, so the reverse map sends each mapped
  header back to its entity.
\<close>
theorem active_entities_invariant:
  "(\<forall>(k, h) \<in> set (get_active_entities H).
       h \<in> set H \<and>
       (\<exists>syns. (k, syns) \<in> set entity_map \<and>
          (\<exists>s \<in> set syns. \<exists>h' \<in> set H. strip (lower h') = s)) \<and>
       dict_get (header_to_entity H) h = Some k)
   \<and> distinct (map fst (get_active_entities H))
   \<and> distinct (map snd (get_active_entities H))"
proof (intro conjI ballI)
  fix x assume x: "x \<in> set (get_active_entities H)"
  obtain k h where kh: "x = (k, h)" by (cases x)
  from active_entry[of k h H] x kh obtain syns s where
    e: "(k, syns) \<in> set entity_map" "s \<in> set syns" "h \<in> set H" "strip (lower h) = s"
    by auto
  from header_to_entity_inverse[of k h H] x kh
  have "dict_get (header_to_entity H) h = Some k" by simp
  with e kh show "case x of (k, h) \<Rightarrow>
       h \<in> set H \<and>
       (\<exists>syns. (k, syns) \<in> set entity_map \<and>
          (\<exists>s \<in> set syns. \<exists>h' \<in> set H. strip (lower h') = s)) \<and>
       dict_get (header_to_entity H) h = Some k"
    by auto
qed (rule active_keys_distinct active_headers_distinct)+

text \<open>Claim C9 at the headers \<open>Item\<close>, \<open>QTY\<close> (between spaces) and \<open>note\<close>.\<close>

theorem active_entities_invariant_witness:
  "(''quantity'', '' QTY '') \<in> set (get_active_entities [''Item'', '' QTY '', ''note''])
   \<and> '' QTY '' \<in> set [''Item'', '' QTY '', ''note'']
   \<and> dict_get (header_to_entity [''Item'', '' QTY '', ''note'']) '' QTY '' = Some ''quantity''"
proof -
  have mem: "(''quantity'', '' QTY '') \<in> set (get_active_entities [''Item'', '' QTY '', ''note''])"
    by code_simp
  from active_entities_invariant[of "[''Item'', '' QTY '', ''note'']"] mem
  show ?thesis by fastforce
qed

text \<open>
  Claim C8. For every header list \<open>H\<close> and every record \<open>R\<close> the row has exactly as many
  cells as there are headers; a position whose header resolves to no entity, or whose
  entity has no value in \<open>R\<close> (the key is missing or holds \<open>None\<close>), holds the empty string;
  and the row for no headers is empty.
\<close>
theorem to_row_data_length:
  "length (to_row_data rf R H) = length H
   \<and> (\<forall>i < length H.
        (dict_get (header_to_entity H) (H ! i) = None
         \<or> (\<exists>k. dict_get (header_to_entity H) (H ! i) = Some k
                \<and> (dict_get R k = None \<or> dict_get R k = Some VNone)))
        \<longrightarrow> to_row_data rf R H ! i = [])
   \<and> to_row_data rf R [] = []"
proof (intro conjI allI impI)
  show "length (to_row_data rf R H) = length H"
    by (simp add: to_row_data_def row_loop_length)
  show "to_row_data rf R [] = []"
    by (simp add: to_row_data_def)
next
  fix i
  assume i: "i < length H"
    and blank: "dict_get (header_to_entity H) (H ! i) = None
         \<or> (\<exists>k. dict_get (header_to_entity H) (H ! i) = Some k
                \<and> (dict_get R k = None \<or> dict_get R k = Some VNone))"
  from blank show "to_row_data rf R H ! i = []"
    by (auto simp: to_row_data_nth[OF i] cell_of_def has_key_dict_get py_or_def)
qed

text \<open>Claim C8 at the headers \<open>notes\<close>, \<open>qty\<close>, \<open>total\<close> and a record with a quantity only.\<close>

theorem to_row_data_length_witness:
  "length (to_row_data sample_repr [(''quantity'', VInt 2)] [''notes'', ''qty'', ''total'']) = 3
   \<and> dict_get (header_to_entity [''notes'', ''qty'', ''total'']) ''notes'' = None
   \<and> to_row_data sample_repr [(''quantity'', VInt 2)] [''notes'', ''qty'', ''total''] ! 0 = []
   \<and> dict_get (header_to_entity [''notes'', ''qty'', ''total'']) ''total'' = Some ''total_price''
   \<and> dict_get [(''quantity'', VInt 2)] ''total_price'' = None
   \<and> to_row_data sample_repr [(''quantity'', VInt 2)] [''notes'', ''qty'', ''total''] ! 2 = []"
proof -
  let ?H = "[''notes'', ''qty'', ''total'']"
  let ?R = "[(''quantity'', VInt 2)]"
  have a: "dict_get (header_to_entity ?H) (?H ! 0) = None" by code_simp
  have b: "dict_get (header_to_entity ?H) (?H ! 2) = Some ''total_price''" by code_simp
  have c: "dict_get ?R ''total_price'' = None" by code_simp
  from to_row_data_length[of sample_repr ?R ?H] a b c
  have "length (to_row_data sample_repr ?R ?H) = 3"
    and "to_row_data sample_repr ?R ?H ! 0 = []"
    and "to_row_data sample_repr ?R ?H ! 2 = []"
    by auto
  with a b c show ?thesis by simp
qed

text \<open>
  Claim C10 says that a mapped header whose entity has a value other than \<open>None\<close>, numeric
  zero included, gets the cell \<open>str(v)\<close>. For the header \<open>qty\<close> and the quantity \<open>0\<close> the cell
  is empty, while \<open>str(0)\<close> is \<open>0\<close>.
\<close>
theorem zero_cell_counterexample:
  "dict_get (header_to_entity [''qty'']) ''qty'' = Some ''quantity''
   \<and> dict_get [(''quantity'', VInt 0)] ''quantity'' = Some (VInt 0)
   \<and> VInt 0 \<noteq> VNone
   \<and> to_row_data sample_repr [(''quantity'', VInt 0)] [''qty''] ! 0 = []
   \<and> py_str sample_repr (VInt 0) = ''0''"
  by code_simp

text \<open>
  Claim C10, amended. At every header position the cell is \<open>str(v)\<close> when the header has an
  entity, the record has a value \<open>v\<close> for it and \<open>v\<close> is true in Python's sense (not \<open>None\<close>,
  not zero, not the empty string); in every other case the cell is the empty string.
\<close>

theorem projection_cell:
  "i < length H \<Longrightarrow>
   to_row_data rf R H ! i =
     (case dict_get (header_to_entity H) (H ! i) of
        None \<Rightarrow> []
      | Some k \<Rightarrow>
          (case dict_get R k of
             None \<Rightarrow> []
           | Some v \<Rightarrow> if truthy v then py_str rf v else []))"
proof -
  assume i: "i < length H"
  have ne: "k \<noteq> []" if "dict_get (header_to_entity H) (H ! i) = Some k" for k
    using active_entry[OF header_to_entity_entry[OF that]] entity_key_nonempty by blast
  show ?thesis
    by (auto simp: to_row_data_nth[OF i] cell_of_def has_key_dict_get py_or_def ne
        split: option.splits)
qed

text \<open>Claim C10, amended, at the headers \<open>item\<close>, \<open>qty\<close>: an empty item name and the quantity 12.\<close>

theorem projection_cell_witness:
  "(1::nat) < length [''item'', ''qty'']
   \<and> to_row_data sample_repr [(''quantity'', VInt 12), (''item_name'', VStr [])] [''item'', ''qty'']
      = [[], ''12'']"
proof -
  let ?H = "[''item'', ''qty'']"
  let ?R = "[(''quantity'', VInt 12), (''item_name'', VStr [])]"
  have len: "(1::nat) < length ?H" by simp
  have len0: "(0::nat) < length ?H" by simp
  have l: "length (to_row_data sample_repr ?R ?H) = 2"
    unfolding to_row_data_def row_loop_length by simp
  have h0: "dict_get (header_to_entity ?H) (?H ! 0) = Some ''item_name''" by code_simp
  have h1: "dict_get (header_to_entity ?H) (?H ! 1) = Some ''quantity''" by code_simp
  have r0: "dict_get ?R ''item_name'' = Some (VStr [])" by code_simp
  have r1: "dict_get ?R ''quantity'' = Some (VInt 12)" by code_simp
  have s: "py_str sample_repr (VInt 12) = ''12''" by code_simp
  have c0: "to_row_data sample_repr ?R ?H ! 0 = []"
    using projection_cell[OF len0, of sample_repr ?R] h0 r0 by simp
  have c1: "to_row_data sample_repr ?R ?H ! 1 = ''12''"
    using projection_cell[OF len, of sample_repr ?R] h1 r1 s by simp
  obtain a b where ab: "to_row_data sample_repr ?R ?H = [a, b]"
    using l by (auto simp: length_Suc_conv numeral_2_eq_2)
  have "to_row_data sample_repr ?R ?H = [[], ''12'']"
    using c0 c1 unfolding ab by simp
  with len show ?thesis by simp
qed

text \<open>
  Claim C2 says that the resolver maps a timestamp entity to the header \<open>timestamp\<close>. The
  synonym table has no such entity: no header list gives the active map the key
  \<open>timestamp\<close>, the map for the single header \<open>timestamp\<close> is empty, and a record with a
  timestamp is projected onto that header as an empty cell.
\<close>
theorem timestamp_not_resolved:
  "\<not> has_key (get_active_entities H) ''timestamp''
   \<and> get_active_entities [''timestamp''] = []
   \<and> to_row_data rf [(''timestamp'', VStr ts)] [''timestamp''] = [[]]"
proof (intro conjI)
  show "\<not> has_key (get_active_entities H) ''timestamp''"
  proof
    assume "has_key (get_active_entities H) ''timestamp''"
    then obtain h where "(''timestamp'', h) \<in> set (get_active_entities H)"
      by (auto simp: has_key_def)
    from active_entry[OF this] obtain syns where "(''timestamp'', syns) \<in> set entity_map"
      by auto
    then show False by (simp add: entity_map_def)
  qed
  show "get_active_entities [''timestamp''] = []" by code_simp
  show "to_row_data rf [(''timestamp'', VStr ts)] [''timestamp''] = [[]]" by code_simp
qed

section \<open>Claims on the price token\<close>

text \<open>
  Claim C7. The price-token parser turns \<open>3.6jt\<close> into the unit price 3,600,000 with no
  total price, \<open>500rb\<close> into the unit price 500,000, and \<open>3.6jt/2\<close> into the total price
  3,600,000 with the unit price 1,800,000; each of these floats equals its integer exactly.
\<close>

theorem price_shorthand:
  "parse_price_part ''3.6jt'' = Inr [(''unit_price'', double 3600000)]
   \<and> parse_price_part ''500rb'' = Inr [(''unit_price'', double 500000)]
   \<and> parse_price_part ''3.6jt/2'' =
       Inr [(''total_price'', double 3600000), (''unit_price'', double 1800000)]
   \<and> float_eq_int (double 3600000) 3600000
   \<and> float_eq_int (double 500000) 500000
   \<and> float_eq_int (double 1800000) 1800000"
  by code_simp

section \<open>Claims on the parser\<close>

text \<open>
  Claim C1 says that the text \<open>Laptop terjual 2 unit harga 3.6jt\<close> under the headers
  \<open>timestamp\<close>, \<open>item_name\<close>, \<open>quantity\<close>, \<open>unit_price\<close>, \<open>total_price\<close>, \<open>transaction_type\<close>
  gives the row of the timestamp, \<open>Laptop\<close>, \<open>2\<close>, \<open>3600000\<close>, \<open>7200000\<close>, \<open>sold\<close>. With the sample
  clock the record has no total price and the row is empty but for the quantity.
\<close>

theorem laptop_row_counterexample:
  "parse_transaction sample_strftime sample_now ''Laptop terjual 2 unit harga 3.6jt''
      [''timestamp'', ''item_name'', ''quantity'', ''unit_price'', ''total_price'',
       ''transaction_type''] =
     Inr [(''timestamp'', VStr (sample_strftime sample_now)), (''quantity'', VInt 2),
          (''unit_price'', VFloat (double 3600000)), (''transaction_type'', VStr ''sold''),
          (''item_name'', VStr ''Laptop'')]
   \<and> parse_and_project sample_strftime sample_repr sample_now
        ''Laptop terjual 2 unit harga 3.6jt''
        [''timestamp'', ''item_name'', ''quantity'', ''unit_price'', ''total_price'',
         ''transaction_type''] =
       Inr [[], [], ''2'', [], [], []]
   \<and> parse_and_project sample_strftime sample_repr sample_now
        ''Laptop terjual 2 unit harga 3.6jt''
        [''timestamp'', ''item_name'', ''quantity'', ''unit_price'', ''total_price'',
         ''transaction_type''] \<noteq>
       Inr [sample_strftime sample_now, ''Laptop'', ''2'', ''3600000'', ''7200000'', ''sold'']"
  by code_simp

text \<open>
  Claim C1, amended. For that text and those headers, whatever the clock and the rendering
  of floats, the record has the timestamp of the current moment, the quantity 2, the unit
  price 3,600,000 (exactly), the transaction type \<open>sold\<close> and the item name \<open>Laptop\<close>, and no
  total price: of these headers only \<open>quantity\<close> is a synonym of an entity, so nothing is
  reconciled. The row has six cells, and the five after the first are empty but for the
  quantity \<open>2\<close>.
\<close>

theorem laptop_row:
  "parse_transaction strftime now ''Laptop terjual 2 unit harga 3.6jt''
      [''timestamp'', ''item_name'', ''quantity'', ''unit_price'', ''total_price'',
       ''transaction_type''] =
     Inr [(''timestamp'', VStr (strftime now)), (''quantity'', VInt 2),
          (''unit_price'', VFloat (double 3600000)), (''transaction_type'', VStr ''sold''),
          (''item_name'', VStr ''Laptop'')]
   \<and> float_eq_int (double 3600000) 3600000
   \<and> map_sum id length
        (parse_and_project strftime repr_float now ''Laptop terjual 2 unit harga 3.6jt''
          [''timestamp'', ''item_name'', ''quantity'', ''unit_price'', ''total_price'',
           ''transaction_type'']) = Inr 6
   \<and> map_sum id tl
        (parse_and_project strftime repr_float now ''Laptop terjual 2 unit harga 3.6jt''
          [''timestamp'', ''item_name'', ''quantity'', ''unit_price'', ''total_price'',
           ''transaction_type'']) = Inr [[], ''2'', [], [], []]"
  by code_simp

text \<open>
  Claim C3 says that under the headers \<open>timestamp\<close>, \<open>item\<close>, \<open>qty\<close>, \<open>unit_price\<close>,
  \<open>total_price\<close> a text with the quantity 2 and the unit price 10000 gets the total price
  20000. The header \<open>total_price\<close> is no synonym of the total-price entity, so the gate is
  closed: for \<open>buku 2 unit harga 10000\<close> the record has no total price.
\<close>

theorem total_gate_counterexample:
  "extract_fields sample_strftime sample_now ''buku 2 unit harga 10000'' =
     Inr [(''timestamp'', VStr (sample_strftime sample_now)), (''quantity'', VInt 2),
          (''unit_price'', VFloat (double 10000)), (''item_name'', VStr ''buku'')]
   \<and> float_eq_int (double 10000) 10000
   \<and> \<not> has_key (get_active_entities
          [''timestamp'', ''item'', ''qty'', ''unit_price'', ''total_price'']) ''total_price''
   \<and> parse_transaction sample_strftime sample_now ''buku 2 unit harga 10000''
        [''timestamp'', ''item'', ''qty'', ''unit_price'', ''total_price''] =
       Inr [(''timestamp'', VStr (sample_strftime sample_now)), (''quantity'', VInt 2),
            (''unit_price'', VFloat (double 10000)), (''item_name'', VStr ''buku'')]"
  by code_simp

text \<open>Facts for the amended claim.\<close>

lemma double_10000: "double 10000 = Finite False 5497558138880000 (- 39)"
  by code_simp

lemma mul_2_10000: "py_mul (VInt 2) (VFloat (double 10000)) = Inr (VFloat (double 20000))"
  by code_simp

lemma total_gate_open:
  "has_key (get_active_entities [''timestamp'', ''item'', ''qty'', ''unit_price'', ''total''])
     ''total_price''"
  by code_simp

text \<open>
  Claim C3, amended. Under the headers \<open>timestamp\<close>, \<open>item\<close>, \<open>qty\<close>, \<open>unit_price\<close>, \<open>total\<close>
  (\<open>total\<close> is a synonym of the total-price entity), for every text whose extraction gives
  the quantity 2, the unit price 10000.0 and no total price, the parser returns the
  extracted record with the total price set to 20000.0.
\<close>

theorem total_reconciled:
  assumes "extract_fields strftime now text = Inr results"
    and "dict_get results ''quantity'' = Some (VInt 2)"
    and "dict_get results ''unit_price'' = Some (VFloat (double 10000))"
    and "dict_get results ''total_price'' = None"
  shows "parse_transaction strftime now text
           [''timestamp'', ''item'', ''qty'', ''unit_price'', ''total''] =
         Inr (dict_set results ''total_price'' (VFloat (double 20000)))
       \<and> dict_get (dict_set results ''total_price'' (VFloat (double 20000))) ''total_price''
           = Some (VFloat (double 20000))
       \<and> float_eq_int (double 20000) 20000"
proof -
  have t: "reconcile_total
      (get_active_entities [''timestamp'', ''item'', ''qty'', ''unit_price'', ''total''])
      results = Inr (dict_set results ''total_price'' (VFloat (double 20000)))"
    using assms(2-4) total_gate_open mul_2_10000
    by (simp add: reconcile_total_def get_or_none_def double_10000)
  have u: "reconcile_unit
      (get_active_entities [''timestamp'', ''item'', ''qty'', ''unit_price'', ''total''])
      results (dict_set results ''total_price'' (VFloat (double 20000)))
      = Inr (dict_set results ''total_price'' (VFloat (double 20000)))"
    using assms(2-4) by (simp add: reconcile_unit_def get_or_none_def)
  have g: "dict_get (dict_set results ''total_price'' (VFloat (double 20000))) ''total_price''
           = Some (VFloat (double 20000))"
    by (induction results) (auto simp: dict_get_def)
  have e: "float_eq_int (double 20000) 20000" by code_simp
  show ?thesis using assms(1) t u g e
    by (simp add: parse_transaction_def reconcile_def)
qed

text \<open>Claim C3, amended, at the text \<open>buku 2 unit harga 10000\<close>.\<close>

theorem total_reconciled_witness:
  "extract_fields sample_strftime sample_now ''buku 2 unit harga 10000'' =
     Inr [(''timestamp'', VStr (sample_strftime sample_now)), (''quantity'', VInt 2),
          (''unit_price'', VFloat (double 10000)), (''item_name'', VStr ''buku'')]
   \<and> parse_transaction sample_strftime sample_now ''buku 2 unit harga 10000''
        [''timestamp'', ''item'', ''qty'', ''unit_price'', ''total''] =
       Inr [(''timestamp'', VStr (sample_strftime sample_now)), (''quantity'', VInt 2),
            (''unit_price'', VFloat (double 10000)), (''item_name'', VStr ''buku''),
            (''total_price'', VFloat (double 20000))]"
proof -
  let ?e = "[(''timestamp'', VStr (sample_strftime sample_now)), (''quantity'', VInt 2),
          (''unit_price'', VFloat (double 10000)), (''item_name'', VStr ''buku'')]"
  have x: "extract_fields sample_strftime sample_now ''buku 2 unit harga 10000'' = Inr ?e"
    by code_simp
  have q: "dict_get ?e ''quantity'' = Some (VInt 2)"
    and u: "dict_get ?e ''unit_price'' = Some (VFloat (double 10000))"
    and t: "dict_get ?e ''total_price'' = None"
    by (simp_all add: dict_get_def)
  from total_reconciled[OF x q u t] x show ?thesis by simp
qed

lemma map_sum_Inr: "map_sum id f x = Inr y \<longleftrightarrow> (\<exists>z. x = Inr z \<and> y = f z)"
  by (cases x) auto

lemma map_sum_Inl: "map_sum id f x = Inl e \<longleftrightarrow> x = Inl e"
  by (cases x) auto

lemma reconcile_total_cases:
  "reconcile_total A e = Inr r1 \<Longrightarrow>
   r1 = e \<or> (has_key A ''total_price'' \<and> (\<exists>v. r1 = dict_set e ''total_price'' v))"
  by (auto simp: reconcile_total_def Let_def map_sum_Inr split: if_splits)

lemma reconcile_unit_cases:
  "reconcile_unit A e r1 = Inr r \<Longrightarrow>
   r = r1 \<or> (has_key A ''unit_price'' \<and> (\<exists>v. r = dict_set r1 ''unit_price'' v))"
  by (auto simp: reconcile_unit_def Let_def map_sum_Inr split: if_splits sum.splits)

text \<open>
  Claim C6 says that for every text and every header list whose active entity map has no
  total-price entry, such as \<open>timestamp\<close>, \<open>item\<close>, \<open>qty\<close>, \<open>unit_price\<close>, the returned
  record has no total-price key. Under these headers the text \<open>buku 2 unit harga 10000/2\<close>
  returns a record with the total price 10000: the price stage reads a price given for
  two items as a total price and stores it without consulting the map.
\<close>

theorem total_without_column_counterexample:
  "\<not> has_key (get_active_entities [''timestamp'', ''item'', ''qty'', ''unit_price''])
        ''total_price''
   \<and> parse_transaction sample_strftime sample_now ''buku 2 unit harga 10000/2''
        [''timestamp'', ''item'', ''qty'', ''unit_price''] =
       Inr [(''timestamp'', VStr (sample_strftime sample_now)), (''quantity'', VInt 2),
            (''total_price'', VFloat (double 10000)), (''unit_price'', VFloat (double 5000)),
            (''item_name'', VStr ''buku'')]
   \<and> has_key [(''timestamp'', VStr (sample_strftime sample_now)), (''quantity'', VInt 2),
            (''total_price'', VFloat (double 10000)), (''unit_price'', VFloat (double 5000)),
            (''item_name'', VStr ''buku'')] ''total_price''
   \<and> float_eq_int (double 10000) 10000"
  by code_simp

text \<open>
  Claim C6, amended. Reconciliation never makes up a field the schema has no column for:
  whenever the parser returns a record and the active entity map has no total-price entry,
  the record's total price is what the extraction stages found, so none if they found
  none, even with a quantity and a unit price; and likewise for the unit price when the
  map has no unit-price entry.
\<close>

theorem reconciliation_gated:
  assumes "parse_transaction strftime now text H = Inr r"
  shows "\<exists>e. extract_fields strftime now text = Inr e
           \<and> (\<not> has_key (get_active_entities H) ''total_price''
                \<longrightarrow> dict_get r ''total_price'' = dict_get e ''total_price'')
           \<and> (\<not> has_key (get_active_entities H) ''unit_price''
                \<longrightarrow> dict_get r ''unit_price'' = dict_get e ''unit_price'')"
proof -
  from assms obtain e where e: "extract_fields strftime now text = Inr e"
    and rec: "reconcile (get_active_entities H) e = Inr r"
    by (auto simp: parse_transaction_def split: sum.splits)
  from rec obtain r1 where t: "reconcile_total (get_active_entities H) e = Inr r1"
    and u: "reconcile_unit (get_active_entities H) e r1 = Inr r"
    by (auto simp: reconcile_def split: sum.splits)
  from reconcile_total_cases[OF t] reconcile_unit_cases[OF u] e
  show ?thesis by (auto simp: dict_get_dict_set)
qed

text \<open>
  Claim C6, amended, at the headers \<open>timestamp\<close>, \<open>item\<close>, \<open>qty\<close>, \<open>unit_price\<close> and the
  text \<open>buku 2 unit harga 10000\<close>: a quantity and a unit price, and no total price.
\<close>

theorem reconciliation_gated_witness:
  "parse_transaction sample_strftime sample_now ''buku 2 unit harga 10000''
      [''timestamp'', ''item'', ''qty'', ''unit_price''] =
     Inr [(''timestamp'', VStr (sample_strftime sample_now)), (''quantity'', VInt 2),
          (''unit_price'', VFloat (double 10000)), (''item_name'', VStr ''buku'')]
   \<and> \<not> has_key (get_active_entities [''timestamp'', ''item'', ''qty'', ''unit_price''])
          ''total_price''
   \<and> dict_get [(''timestamp'', VStr (sample_strftime sample_now)), (''quantity'', VInt 2),
          (''unit_price'', VFloat (double 10000)), (''item_name'', VStr ''buku'')]
        ''total_price'' = None"
proof -
  let ?H = "[''timestamp'', ''item'', ''qty'', ''unit_price'']"
  let ?r = "[(''timestamp'', VStr (sample_strftime sample_now)), (''quantity'', VInt 2),
          (''unit_price'', VFloat (double 10000)), (''item_name'', VStr ''buku'')]"
  have p: "parse_transaction sample_strftime sample_now ''buku 2 unit harga 10000'' ?H = Inr ?r"
    by code_simp
  have x: "extract_fields sample_strftime sample_now ''buku 2 unit harga 10000'' = Inr ?r"
    by code_simp
  have g: "\<not> has_key (get_active_entities ?H) ''total_price''"
    by code_simp
  from reconciliation_gated[OF p] x g have "dict_get ?r ''total_price'' = None"
    by (simp add: dict_get_def)
  with p g show ?thesis by simp
qed

section \<open>Exceptions: characters\<close>

lemma digit_not_space: "is_digit c \<Longrightarrow> \<not> is_space c"
  by (auto simp: is_digit_def is_space_def)

lemma digit_not_cspace: "is_digit c \<Longrightarrow> \<not> is_cspace c"
  by (auto simp: is_digit_def is_cspace_def)

lemma digit_not_sign: "is_digit c \<Longrightarrow> \<not> is_sign c"
  by (auto simp: is_digit_def is_sign_def)

lemma lower_digit: "is_digit c \<Longrightarrow> lower_char c = c"
  by (auto simp: is_digit_def lower_char_def)

lemma lower_space: "is_space c \<Longrightarrow> lower_char c = c"
  by (auto simp: is_space_def lower_char_def)

lemma lower_price_char: "is_price_char c \<Longrightarrow> lower_char c = c"
  by (auto simp: is_price_char_def is_digit_def lower_char_def)

lemma lower_slash: "lower_char c = CHR ''/'' \<longleftrightarrow> c = CHR ''/''"
proof
  assume l: "lower_char c = CHR ''/''"
  let ?n = "of_char c :: int"
  show "c = CHR ''/''"
  proof (cases "(65 \<le> ?n \<and> ?n \<le> 90) \<or> (192 \<le> ?n \<and> ?n \<le> 222 \<and> ?n \<noteq> 215)")
    case True
    with l have "char_of (?n + 32) = CHR ''/''" by (simp add: lower_char_def Let_def)
    then have "(of_char (char_of (?n + 32)) :: int) = of_char CHR ''/''" by simp
    then have "(?n + 32) mod 256 = 47" by simp
    with True show ?thesis by auto
  next
    case False
    with l show ?thesis by (simp add: lower_char_def Let_def)
  qed
next
  assume "c = CHR ''/''"
  then show "lower_char c = CHR ''/''" by (simp add: lower_char_def)
qed

section \<open>Exceptions: reading integers\<close>

lemma digitpart_digits:
  "list_all is_digit ds \<Longrightarrow> ds \<noteq> [] \<or> b \<Longrightarrow> digitpart b ds = Some ds"
  by (induction ds arbitrary: b) auto

lemma dropWhile_all: "list_all P xs \<Longrightarrow> dropWhile P (xs @ ys) = dropWhile P ys"
  by (induction xs) auto

lemma cstrip_ws_digits:
  assumes "list_all is_cspace ws" "list_all is_digit ds" "ds \<noteq> []"
  shows "cstrip (ws @ ds) = ds"
proof -
  have h: "\<not> is_cspace (hd ds)" using assms(2,3) by (cases ds) (auto dest: digit_not_cspace)
  have l: "\<not> is_cspace (last ds)"
    using assms(2,3) by (auto simp: list_all_iff dest!: digit_not_cspace)
  have 1: "dropWhile is_cspace (ws @ ds) = ds"
    using assms(1,3) h by (cases ds) (auto simp: dropWhile_all)
  have 2: "dropWhile is_cspace (rev ds) = rev ds"
    using assms(3) l by (cases "rev ds") (auto simp: last_rev[symmetric] hd_rev)
  show ?thesis by (simp add: cstrip_def 1 2)
qed

lemma int_of_digits_nonneg: "0 \<le> int_of_digits ds"
proof -
  have "0 \<le> a \<Longrightarrow> 0 \<le> foldl (\<lambda>a c. 10 * a + digit_val c) a ds" for a
    by (induction ds arbitrary: a) (auto simp: digit_val_def)
  then show ?thesis by (simp add: int_of_digits_def)
qed

lemma py_int_ws_digits:
  assumes "list_all is_cspace ws" "list_all is_digit ds" "ds \<noteq> []"
    "length ds \<le> int_max_str_digits"
  shows "py_int (ws @ ds) = Inr (int_of_digits ds)"
proof -
  have s: "\<not> is_sign (hd ds)" using assms(2,3) by (cases ds) (auto dest: digit_not_sign)
  have u: "unsigned ds = ds" using s assms(3) by (cases ds) (auto simp: unsigned_def)
  have n: "\<not> negative ds" using s assms(3) by (cases ds) (auto simp: negative_def is_sign_def)
  show ?thesis
    using assms(4) u n digitpart_digits[OF assms(2), of False] assms(3)
    by (simp add: py_int_def cstrip_ws_digits[OF assms(1-3)])
qed

lemma py_int_digits:
  "list_all is_digit ds \<Longrightarrow> ds \<noteq> [] \<Longrightarrow> length ds \<le> int_max_str_digits \<Longrightarrow>
   py_int ds = Inr (int_of_digits ds)"
  using py_int_ws_digits[of "[]" ds] by simp

section \<open>Exceptions: integers as floats\<close>

lemma bitlen_pos: "0 < n \<Longrightarrow> 1 \<le> bitlen n \<and> 2 ^ nat (bitlen n - 1) \<le> n"
proof (induction n rule: bitlen.induct)
  case (1 n)
  show ?case
  proof (cases "n div 2 \<le> 0")
    case True
    then have "bitlen (n div 2) = 0" by (simp add: bitlen.simps)
    with "1.prems" show ?thesis by (simp add: bitlen.simps[of n])
  next
    case False
    then have p: "0 < n div 2" by simp
    from "1.IH" "1.prems" p have ih: "1 \<le> bitlen (n div 2)"
      "2 ^ nat (bitlen (n div 2) - 1) \<le> n div 2" by auto
    have b: "bitlen n = 1 + bitlen (n div 2)" using "1.prems" by (simp add: bitlen.simps[of n])
    have "nat (bitlen (n div 2)) = Suc (nat (bitlen (n div 2) - 1))" using ih(1) by simp
    then have "(2::int) ^ nat (bitlen (n div 2)) = 2 * 2 ^ nat (bitlen (n div 2) - 1)"
      by simp
    also have "\<dots> \<le> 2 * (n div 2)" using ih(2) by simp
    also have "\<dots> \<le> n" by simp
    finally show ?thesis using b ih(1) by simp
  qed
qed

lemma bitlen_1: "bitlen 1 = 1"
  by (simp add: bitlen.simps)

lemma round_half_even_ge: "n div d \<le> round_half_even n d"
  by (simp add: round_half_even_def Let_def)

lemma scaled_int_div_pos:
  assumes "0 < n" "e \<le> bitlen n - 53"
  shows "1 \<le> fst (scaled n 1 0 e) div snd (scaled n 1 0 e)"
proof (cases "e \<le> 0")
  case True
  then have "fst (scaled n 1 0 e) div snd (scaled n 1 0 e) = n * 2 ^ nat (- e)"
    by (simp add: scaled_def)
  moreover have "1 * 1 \<le> n * 2 ^ nat (- e)"
    using assms(1) by (intro mult_mono) auto
  ultimately show ?thesis by simp
next
  case False
  then have d: "fst (scaled n 1 0 e) div snd (scaled n 1 0 e) = n div 2 ^ nat e"
    by (simp add: scaled_def)
  from bitlen_pos[OF assms(1)] have n: "2 ^ nat (bitlen n - 1) \<le> n" by simp
  have "nat e \<le> nat (bitlen n - 1)" using assms(2) False by simp
  then have "(2::int) ^ nat e \<le> 2 ^ nat (bitlen n - 1)" by (intro power_increasing) auto
  from this n have "(2::int) ^ nat e \<le> n" by (rule order_trans)
  then have "(2::int) ^ nat e div 2 ^ nat e \<le> n div 2 ^ nat e"
    by (rule zdiv_mono1) simp
  then have "1 \<le> n div 2 ^ nat e" by simp
  with d show ?thesis by simp
qed

lemma fround_int_nonzero:
  assumes "0 < n"
  shows "\<not> is_zero (fround s n 1 0)"
proof -
  from bitlen_pos[OF assms] have b: "1 \<le> bitlen n" by simp
  define e0 where "e0 = max (bitlen n - bitlen 1 + 0 - 53) (- 1074)"
  have e0: "e0 = bitlen n - 54" using b by (simp add: e0_def bitlen_1)
  define e where "e = (if 2 ^ 53 \<le> fst (scaled n 1 0 e0) div snd (scaled n 1 0 e0)
     then e0 + 1 else e0)"
  have "e \<le> bitlen n - 53" by (simp add: e_def e0)
  from scaled_int_div_pos[OF assms this] round_half_even_ge
  have m: "1 \<le> round_half_even (fst (scaled n 1 0 e)) (snd (scaled n 1 0 e))"
    by (rule order_trans)
  show ?thesis
    using assms m unfolding fround_def Let_def e_def[symmetric] e0_def[symmetric] is_zero_def
    by (auto split: if_splits)
qed

lemma float_of_int_error: "float_of_int i = Inl err \<Longrightarrow> err = OverflowError"
  by (auto simp: float_of_int_def split: pyfloat.splits)

lemma float_of_int_nonzero: "i \<noteq> 0 \<Longrightarrow> float_of_int i = Inr b \<Longrightarrow> \<not> is_zero b"
  using fround_int_nonzero[of "\<bar>i\<bar>" "i < 0"]
  by (auto simp: float_of_int_def split: pyfloat.splits)

lemma float_div_int_error:
  "i \<noteq> 0 \<Longrightarrow> float_div_int a i = Inl err \<Longrightarrow> err = OverflowError"
  by (auto simp: float_div_int_def float_truediv_def split: sum.splits if_splits
      dest: float_of_int_error float_of_int_nonzero)

lemma float_mul_int_error: "float_mul_int a i = Inl err \<Longrightarrow> err = OverflowError"
  by (auto simp: float_mul_int_def float_mul_def split: sum.splits dest: float_of_int_error)

lemma py_float_error: "py_float s = Inl err \<Longrightarrow> err = ValueError"
  by (auto simp: py_float_def Let_def split: if_splits option.splits)

section \<open>Exceptions: what the patterns match\<close>

lemma digits1_Some:
  "digits1 s = Some (ds, r) \<Longrightarrow> ds \<noteq> [] \<and> list_all is_digit ds \<and> s = ds @ r"
  by (auto simp: digits1_def list_all_iff split: if_splits dest: set_takeWhileD)

lemma re_search_Some: "re_search m s = Some x \<Longrightarrow> \<exists>k. m (drop k s) = Some x"
proof (induction s)
  case Nil
  then show ?case by simp
next
  case (Cons c cs)
  show ?case
  proof (cases "m (c # cs)")
    case None
    with Cons obtain k where "m (drop k cs) = Some x" by auto
    then have "m (drop (Suc k) (c # cs)) = Some x" by simp
    then show ?thesis by blast
  next
    case (Some y)
    with Cons.prems have "m (drop 0 (c # cs)) = Some x" by simp
    then show ?thesis by blast
  qed
qed

lemma lit_Some: "lit p s = Some r \<Longrightarrow> s = p @ r"
  by (auto simp: lit_def starts_with_def split: if_splits)
     (metis append_take_drop_id)

lemma lit_ci_Some: "lit_ci p s = Some r \<Longrightarrow> \<exists>m. s = m @ r \<and> map lower_char m = p"
proof (induction p s rule: lit_ci.induct)
  case (1 s)
  then show ?case by simp
next
  case (2 p ps)
  then show ?case by simp
next
  case (3 p ps c cs)
  from "3.prems" have l: "lower_char c = p" and r: "lit_ci ps cs = Some r"
    by (simp_all split: if_splits)
  from "3.IH"[OF l r] obtain m where m: "cs = m @ r" "map lower_char m = ps" by auto
  have a: "c # cs = (c # m) @ r" unfolding m(1) by simp
  have b: "map lower_char (c # m) = p # ps" using l m(2) by simp
  show ?case by (rule exI[of _ "c # m"]) (rule conjI[OF a b])
qed

lemma lit_alts_Some: "lit_alts f ps s = Some r \<Longrightarrow> \<exists>p \<in> set ps. f p s = Some r"
  by (induction ps) (auto split: option.splits)

lemma spaces0_split: "\<exists>ws. s = ws @ spaces0 s \<and> list_all is_space ws"
proof -
  have "s = takeWhile is_space s @ spaces0 s" by (simp add: spaces0_def)
  moreover have "list_all is_space (takeWhile is_space s)"
    by (auto simp: list_all_iff dest: set_takeWhileD)
  ultimately show ?thesis by blast
qed

lemma spaces1_Some: "spaces1 s = Some r \<Longrightarrow> \<exists>ws. s = ws @ r \<and> list_all is_space ws"
proof -
  assume a: "spaces1 s = Some r"
  then obtain c cs where s: "s = c # cs" "is_space c" "r = spaces0 cs"
    by (auto simp: spaces1_def split: list.splits if_splits)
  from spaces0_split[of cs] obtain ws where "cs = ws @ spaces0 cs" "list_all is_space ws"
    by blast
  with s have "s = (c # ws) @ r \<and> list_all is_space (c # ws)" by simp
  then show ?thesis by blast
qed

text \<open>The optional per-item part.\<close>

lemma per_item_suffix_split:
  "\<exists>X. s = X @ per_item_suffix s \<and>
     (X = [] \<or> (\<exists>ws ws' ds. X = ws @ CHR ''/'' # ws' @ ds \<and> list_all is_space ws
        \<and> list_all is_space ws' \<and> list_all is_digit ds \<and> ds \<noteq> []))"
proof (cases "do { s1 \<leftarrow> lit ''/'' (spaces0 s); (ds, s2) \<leftarrow> digits1 (spaces0 s1); Some s2 }")
  case None
  then have "per_item_suffix s = s" by (simp add: per_item_suffix_def)
  then show ?thesis by simp
next
  case (Some r)
  then have p: "per_item_suffix s = r" by (simp add: per_item_suffix_def)
  define t where "t = spaces0 s"
  from Some obtain s1 ds where 1: "lit ''/'' t = Some s1"
    and 2: "digits1 (spaces0 s1) = Some (ds, r)"
    by (auto simp: bind_eq_Some_conv t_def)
  define t1 where "t1 = spaces0 s1"
  from spaces0_split[of s] obtain ws where ws: "s = ws @ t" "list_all is_space ws"
    unfolding t_def by blast
  from spaces0_split[of s1] obtain ws' where ws': "s1 = ws' @ t1" "list_all is_space ws'"
    unfolding t1_def by blast
  from lit_Some[OF 1] have a: "t = CHR ''/'' # s1" by simp
  from digits1_Some[OF 2] have d: "ds \<noteq> []" "list_all is_digit ds" "t1 = ds @ r"
    unfolding t1_def by auto
  have "s = (ws @ CHR ''/'' # ws' @ ds) @ r"
    unfolding ws(1) a ws'(1) d(3) by simp
  with p ws(2) ws'(2) d(1,2) show ?thesis by blast
qed

lemma magnitude_suffix_split:
  "\<exists>M. s = M @ magnitude_suffix s \<and> CHR ''/'' \<notin> set (map lower_char M)
       \<and> CHR ''/'' \<notin> set M"
proof (cases "lit_alts lit_ci [''jt'', ''juta'', ''rb'', ''ribu'', ''k''] s")
  case None
  then have "magnitude_suffix s = s" by (simp add: magnitude_suffix_def)
  then show ?thesis by simp
next
  case (Some r)
  then have m: "magnitude_suffix s = r" by (simp add: magnitude_suffix_def)
  from lit_alts_Some[OF Some] obtain p where
    p: "p \<in> set [''jt'', ''juta'', ''rb'', ''ribu'', ''k'']" "lit_ci p s = Some r" by blast
  from lit_ci_Some[OF p(2)] obtain M where M: "s = M @ r" "map lower_char M = p" by blast
  from p(1) M(2) have n: "CHR ''/'' \<notin> set (map lower_char M)" by auto
  have "CHR ''/'' \<notin> set M"
  proof
    assume "CHR ''/'' \<in> set M"
    then have "lower_char CHR ''/'' \<in> set (map lower_char M)" by simp
    moreover have "lower_char CHR ''/'' = CHR ''/''" by (simp add: lower_slash)
    ultimately show False using n by simp
  qed
  with m M(1) n show ?thesis by blast
qed

text \<open>Group 1 of the price pattern: no slash, then the optional per-item part.\<close>

lemma price_re_group:
  assumes "price_re s = Some (g1, g0)"
  shows "\<exists>A X pre post. s = pre @ g1 @ post \<and> g1 = A @ X \<and> A \<noteq> []
           \<and> CHR ''/'' \<notin> set A
           \<and> (X = [] \<or> (\<exists>ws ws' ds. X = ws @ CHR ''/'' # ws' @ ds \<and> list_all is_space ws
                \<and> list_all is_space ws' \<and> list_all is_digit ds \<and> ds \<noteq> []))"
proof -
  from assms obtain s1 s2 where
    1: "lit_alts lit_ci [''harga'', ''seharga'', ''senilai''] s = Some s1"
    and 2: "spaces1 s1 = Some s2"
    and 3: "takeWhile is_price_char s2 \<noteq> []"
    and g: "g1 = take (length s2 - length (per_item_suffix (magnitude_suffix
              (dropWhile is_price_char s2)))) s2"
    by (auto simp: price_re_def bind_eq_Some_conv Let_def split: if_splits)
  define P where "P = takeWhile is_price_char s2"
  define s3 where "s3 = dropWhile is_price_char s2"
  define s4 where "s4 = magnitude_suffix s3"
  define s5 where "s5 = per_item_suffix s4"
  have g': "g1 = take (length s2 - length s5) s2"
    using g by (simp add: s5_def s4_def s3_def)
  from lit_alts_Some[OF 1] obtain p where "lit_ci p s = Some s1" by blast
  from lit_ci_Some[OF this] obtain m where m: "s = m @ s1" by blast
  from spaces1_Some[OF 2] obtain ws0 where w: "s1 = ws0 @ s2" by blast
  from magnitude_suffix_split[of s3] obtain M where
    M: "s3 = M @ s4" "CHR ''/'' \<notin> set M" unfolding s4_def by blast
  from per_item_suffix_split[of s4] obtain X where
    X: "s4 = X @ s5"
    "X = [] \<or> (\<exists>ws ws' ds. X = ws @ CHR ''/'' # ws' @ ds \<and> list_all is_space ws
        \<and> list_all is_space ws' \<and> list_all is_digit ds \<and> ds \<noteq> [])"
    unfolding s5_def by blast
  have "s2 = P @ s3" by (simp add: P_def s3_def)
  then have s2: "s2 = (P @ M @ X) @ s5" unfolding M(1) X(1) by simp
  have g1: "g1 = (P @ M) @ X" unfolding g' by (subst (1 2) s2) simp
  have Pn: "CHR ''/'' \<notin> set P"
    by (auto dest!: set_takeWhileD simp: P_def is_price_char_def is_digit_def)
  have "s = (m @ ws0) @ g1 @ s5" unfolding m w g1 by (subst s2) simp
  moreover have "P @ M \<noteq> []" using 3 by (simp add: P_def)
  moreover have "CHR ''/'' \<notin> set (P @ M)" using Pn M(2) by simp
  ultimately show ?thesis using g1 X(2) by blast
qed

lemma quantity_re_group:
  assumes "quantity_re s = Some (g1, g0)"
  shows "g1 \<noteq> [] \<and> list_all is_digit g1 \<and> length g1 \<le> length s"
proof -
  from assms obtain s1 where "digits1 s = Some (g1, s1)"
    by (auto simp: quantity_re_def bind_eq_Some_conv)
  from digits1_Some[OF this] show ?thesis by auto
qed

lemma days_ago_group:
  assumes "days_ago f s = Some (g1, r)"
  shows "g1 \<noteq> [] \<and> list_all is_digit g1 \<and> length g1 \<le> length s"
proof -
  from assms obtain s1 where "digits1 s = Some (g1, s1)"
    by (auto simp: days_ago_def bind_eq_Some_conv)
  from digits1_Some[OF this] show ?thesis by auto
qed

section \<open>Exceptions: price tokens\<close>

lemma split_on_no_sep: "sep \<notin> set a \<Longrightarrow> split_on sep a = [a]"
  by (induction a) auto

lemma split_on_append:
  "sep \<notin> set a \<Longrightarrow> split_on sep (a @ sep # b) = a # split_on sep b"
  by (induction a) auto

lemma map_lower_id: "list_all (\<lambda>c. lower_char c = c) xs \<Longrightarrow> map lower_char xs = xs"
  by (induction xs) auto

lemma filter_id: "list_all P xs \<Longrightarrow> filter P xs = xs"
  by (induction xs) auto

lemma space_facts:
  "is_space c \<Longrightarrow> lower_char c = c \<and> c \<noteq> CHR '','' \<and> c \<noteq> CHR ''/''"
  by (auto simp: is_space_def lower_char_def)

lemma digit_facts:
  "is_digit c \<Longrightarrow> lower_char c = c \<and> c \<noteq> CHR '','' \<and> c \<noteq> CHR ''/''"
  by (auto simp: is_digit_def lower_char_def)

lemma list_all_mono: "list_all P xs \<Longrightarrow> (\<And>x. P x \<Longrightarrow> Q x) \<Longrightarrow> list_all Q xs"
  by (auto simp: list_all_iff)

text \<open>The parts of a price token: the count after the slash is always an integer.\<close>

lemma price_parts:
  assumes g: "g1 = A @ X" "CHR ''/'' \<notin> set A"
    and X: "X = [] \<or> (\<exists>ws ws' ds. X = ws @ CHR ''/'' # ws' @ ds \<and> list_all is_space ws
                \<and> list_all is_space ws' \<and> list_all is_digit ds \<and> ds \<noteq> [])"
    and t: "no_separators g1" "length g1 \<le> int_max_str_digits"
  shows "\<exists>n. (let parts = split_on CHR ''/'' (filter (\<lambda>c. c \<noteq> CHR '','') (lower g1))
              in if length parts > 1 then py_int (parts ! 1) else Inr 1) = Inr n"
proof -
  define A' where "A' = filter (\<lambda>c. c \<noteq> CHR '','') (map lower_char A)"
  have A': "CHR ''/'' \<notin> set A'"
  proof
    assume "CHR ''/'' \<in> set A'"
    then obtain x where "x \<in> set A" "lower_char x = CHR ''/''"
      by (auto simp: A'_def)
    then show False using g(2) by (simp add: lower_slash)
  qed
  from X show ?thesis
  proof
    assume "X = []"
    then have "filter (\<lambda>c. c \<noteq> CHR '','') (lower g1) = A'"
      by (simp add: g(1) lower_def A'_def)
    then show ?thesis using split_on_no_sep[OF A'] by simp
  next
    assume "\<exists>ws ws' ds. X = ws @ CHR ''/'' # ws' @ ds \<and> list_all is_space ws
                \<and> list_all is_space ws' \<and> list_all is_digit ds \<and> ds \<noteq> []"
    then obtain ws ws' ds where x: "X = ws @ CHR ''/'' # ws' @ ds"
      and ws: "list_all is_space ws" and ws': "list_all is_space ws'"
      and ds: "list_all is_digit ds" "ds \<noteq> []" by blast
    have l1: "map lower_char ws = ws" "map lower_char ws' = ws'" "map lower_char ds = ds"
      using ws ws' ds(1)
      by (auto intro!: map_lower_id elim!: list_all_mono simp: space_facts digit_facts)
    have f1: "filter (\<lambda>c. c \<noteq> CHR '','') ws = ws" "filter (\<lambda>c. c \<noteq> CHR '','') ws' = ws'"
      "filter (\<lambda>c. c \<noteq> CHR '','') ds = ds"
      using ws ws' ds(1)
      by (auto intro!: filter_id elim!: list_all_mono dest: space_facts digit_facts)
    have sl: "lower_char CHR ''/'' = CHR ''/''" by (simp add: lower_slash)
    have str: "filter (\<lambda>c. c \<noteq> CHR '','') (lower g1) = (A' @ ws) @ CHR ''/'' # (ws' @ ds)"
      by (simp add: g(1) x lower_def A'_def l1 f1 sl)
    have n1: "CHR ''/'' \<notin> set (A' @ ws)"
      using A' ws by (auto simp: list_all_iff dest: space_facts)
    have n2: "CHR ''/'' \<notin> set (ws' @ ds)"
      using ws' ds(1) by (auto simp: list_all_iff dest: space_facts digit_facts)
    have parts: "split_on CHR ''/'' (filter (\<lambda>c. c \<noteq> CHR '','') (lower g1))
        = [A' @ ws, ws' @ ds]"
      unfolding str split_on_append[OF n1] split_on_no_sep[OF n2] by simp
    have "set ws' \<subseteq> set g1" by (auto simp: g(1) x)
    then have cs: "list_all is_cspace ws'"
      using t(1) ws' by (auto simp: no_separators_def list_all_iff)
    have "length ds \<le> length g1" by (simp add: g(1) x)
    then have "length ds \<le> int_max_str_digits" using t(2) by simp
    from py_int_ws_digits[OF cs ds this] show ?thesis by (simp add: parts)
  qed
qed

lemma price_fields_error:
  "price_fields s m n = Inl err \<Longrightarrow> err = ValueError \<or> err = OverflowError"
proof -
  assume a: "price_fields s m n = Inl err"
  have d: "1 < n \<Longrightarrow> float_div_int b n = Inl err \<Longrightarrow> err = OverflowError" for b
    using float_div_int_error[of n b err] by simp
  from a show ?thesis
    by (auto simp: price_fields_def split: sum.splits if_splits
        dest: py_float_error float_mul_int_error d)
qed

lemma price_fields_shape:
  "price_fields s m n = Inr pd \<Longrightarrow>
   (\<exists>f. pd = [(''unit_price'', f)]) \<or> (\<exists>f u. pd = [(''total_price'', f), (''unit_price'', u)])"
  by (auto simp: price_fields_def split: sum.splits if_splits)

lemma price_fields_float_error:
  "py_float (strip s) = Inl ValueError \<Longrightarrow> price_fields s m n = Inl ValueError"
  by (simp add: price_fields_def)

lemma parse_price_part_error:
  assumes "(let parts = split_on CHR ''/'' (filter (\<lambda>c. c \<noteq> CHR '','') (lower g1))
              in if length parts > 1 then py_int (parts ! 1) else Inr 1) = Inr n"
    and "parse_price_part g1 = Inl err"
  shows "err = OverflowError"
  using assms
  by (auto simp: parse_price_part_def Let_def except_value_type_def
      split: if_splits sum.splits dest: price_fields_error)

lemma parse_price_part_shape:
  "parse_price_part s = Inr pd \<Longrightarrow>
   pd = [] \<or> (\<exists>f. pd = [(''unit_price'', f)])
   \<or> (\<exists>f u. pd = [(''total_price'', f), (''unit_price'', u)])"
  by (auto simp: parse_price_part_def Let_def except_value_type_def
      split: if_splits sum.splits dest: price_fields_shape)

lemma parse_price_part_float_error:
  assumes "(let parts = split_on CHR ''/'' (filter (\<lambda>c. c \<noteq> CHR '','') (lower g1))
              in if length parts > 1 then py_int (parts ! 1) else Inr 1) = Inr n"
    and "py_float (numeric_remainder g1) = Inl ValueError"
    and "g1 \<noteq> []"
  shows "parse_price_part g1 = Inr []"
  using assms
  by (auto simp: parse_price_part_def Let_def except_value_type_def numeric_remainder_def
      price_fields_float_error split: if_splits sum.splits)

section \<open>Exceptions: the text through the stages\<close>

lemma re_delete_subset: "set (re_delete m k s) \<subseteq> set s \<and> length (re_delete m k s) \<le> length s"
  by (induction m k s rule: re_delete.induct) (auto split: option.splits)

lemma strip_subset: "set (strip s) \<subseteq> set s \<and> length (strip s) \<le> length s"
proof -
  have "set (dropWhile is_space (rev (dropWhile is_space s))) \<subseteq> set s"
    by (auto dest!: set_dropWhileD)
  moreover have "length (dropWhile is_space (rev (dropWhile is_space s))) \<le> length s"
    using length_dropWhile_le[of is_space "rev (dropWhile is_space s)"]
      length_dropWhile_le[of is_space s] by simp
  ultimately show ?thesis by (simp add: strip_def)
qed

lemma no_separators_subset: "no_separators s \<Longrightarrow> set t \<subseteq> set s \<Longrightarrow> no_separators t"
  by (auto simp: no_separators_def list_all_iff)

lemma minus_days_error: "minus_days now days = Inl err \<Longrightarrow> err = OverflowError"
  by (auto simp: minus_days_def split: if_splits)

lemma relative_date_error:
  assumes "length t \<le> int_max_str_digits" "relative_date now t = Inl err"
  shows "err = OverflowError"
proof (cases "re_search (days_ago lit) t")
  case None
  with assms(2) show ?thesis
    by (auto simp: relative_date_def map_sum_Inl split: if_splits dest: minus_days_error)
next
  case (Some x)
  obtain g1 rest where x: "x = (g1, rest)" by (cases x)
  from re_search_Some[OF Some] x obtain k where "days_ago lit (drop k t) = Some (g1, rest)"
    by blast
  from days_ago_group[OF this] have g: "g1 \<noteq> []" "list_all is_digit g1" "length g1 \<le> length t"
    by auto
  then have "length g1 \<le> int_max_str_digits" using assms(1) by simp
  from py_int_digits[OF g(2,1) this] assms(2) Some x show ?thesis
    by (auto simp: relative_date_def map_sum_Inl dest: minus_days_error)
qed

lemma parse_relative_date_error:
  assumes "length text \<le> int_max_str_digits" "parse_relative_date now text = Inl err"
  shows "err = OverflowError"
proof -
  have "length (lower text) \<le> int_max_str_digits" using assms(1) by (simp add: lower_def)
  from relative_date_error[OF this] assms(2) show ?thesis
    by (auto simp: parse_relative_date_def split: sum.splits option.splits)
qed

lemma parse_relative_date_text:
  assumes "parse_relative_date now text = Inr (d, clean)"
  shows "set clean \<subseteq> set text \<and> length clean \<le> length text"
proof -
  have "set (strip (re_delete date_phrase 0 text)) \<subseteq> set text"
    using strip_subset[of "re_delete date_phrase 0 text"] re_delete_subset[of date_phrase 0 "text"]
    by blast
  moreover have "length (strip (re_delete date_phrase 0 text)) \<le> length text"
    using strip_subset[of "re_delete date_phrase 0 text"] re_delete_subset[of date_phrase 0 "text"]
    by (meson order_trans)
  ultimately show ?thesis using assms
    by (auto simp: parse_relative_date_def split: sum.splits option.splits)
qed

section \<open>Exceptions: the record through the stages\<close>

lemma well_typed_other:
  "well_typed results \<Longrightarrow> k \<noteq> ''quantity'' \<Longrightarrow> k \<noteq> ''unit_price'' \<Longrightarrow>
   k \<noteq> ''total_price'' \<Longrightarrow> well_typed (dict_set results k v)"
  by (simp add: well_typed_def dict_get_dict_set)

lemma well_typed_quantity:
  "well_typed results \<Longrightarrow> 0 \<le> q \<Longrightarrow> well_typed (dict_set results ''quantity'' (VInt q))"
  by (simp add: well_typed_def dict_get_dict_set is_count_def)

lemma well_typed_unit:
  "well_typed results \<Longrightarrow> well_typed (dict_set results ''unit_price'' (VFloat f))"
  by (simp add: well_typed_def dict_get_dict_set is_price_def)

lemma well_typed_total:
  "well_typed results \<Longrightarrow> well_typed (dict_set results ''total_price'' (VFloat f))"
  by (simp add: well_typed_def dict_get_dict_set is_price_def)

lemma quantity_stage_ok:
  assumes "length clean \<le> int_max_str_digits" "well_typed (fst st)"
  shows "\<exists>st'. quantity_stage (re_search quantity_re clean) st = Inr st' \<and> well_typed (fst st')"
proof (cases "re_search quantity_re clean")
  case None
  then show ?thesis using assms(2) by (simp add: quantity_stage_def)
next
  case (Some x)
  obtain g1 g0 where x: "x = (g1, g0)" by (cases x)
  from re_search_Some[OF Some] x obtain k where "quantity_re (drop k clean) = Some (g1, g0)"
    by blast
  from quantity_re_group[OF this]
  have g: "g1 \<noteq> []" "list_all is_digit g1" "length g1 \<le> length clean" by auto
  then have "length g1 \<le> int_max_str_digits" using assms(1) by simp
  from py_int_digits[OF g(2,1) this] Some x assms(2) show ?thesis
    by (simp add: quantity_stage_def well_typed_quantity int_of_digits_nonneg)
qed

text \<open>The count after the slash of a price token found in a text.\<close>

lemma price_token_count:
  assumes "no_separators clean" "length clean \<le> int_max_str_digits"
    "re_search price_re clean = Some (g1, g0)"
  shows "g1 \<noteq> [] \<and> (\<exists>n. (let parts = split_on CHR ''/'' (filter (\<lambda>c. c \<noteq> CHR '','') (lower g1))
              in if length parts > 1 then py_int (parts ! 1) else Inr 1) = Inr n)"
proof -
  from re_search_Some[OF assms(3)] obtain k where k: "price_re (drop k clean) = Some (g1, g0)"
    by blast
  from price_re_group[OF k] obtain A X pre post where
    s: "drop k clean = pre @ g1 @ post" and g: "g1 = A @ X" "A \<noteq> []" "CHR ''/'' \<notin> set A"
    and X: "X = [] \<or> (\<exists>ws ws' ds. X = ws @ CHR ''/'' # ws' @ ds \<and> list_all is_space ws
                \<and> list_all is_space ws' \<and> list_all is_digit ds \<and> ds \<noteq> [])"
    by blast
  have "set g1 \<subseteq> set (drop k clean)" by (subst s) auto
  then have sub: "set g1 \<subseteq> set clean" using set_drop_subset[of k clean] by blast
  have "length g1 \<le> length (drop k clean)" by (subst s) simp
  then have len: "length g1 \<le> int_max_str_digits" using assms(2) by simp
  from no_separators_subset[OF assms(1) sub] have ns: "no_separators g1" .
  from price_parts[OF g(1,3) X ns len] g(1,2) show ?thesis by simp
qed

lemma price_stage_error:
  assumes "no_separators clean" "length clean \<le> int_max_str_digits"
    "price_stage (re_search price_re clean) st = Inl err"
  shows "err = OverflowError"
proof (cases "re_search price_re clean")
  case None
  with assms(3) show ?thesis by (simp add: price_stage_def)
next
  case (Some x)
  obtain g1 g0 where x: "x = (g1, g0)" by (cases x)
  from price_token_count[OF assms(1,2)] Some x obtain n where
    "(let parts = split_on CHR ''/'' (filter (\<lambda>c. c \<noteq> CHR '','') (lower g1))
              in if length parts > 1 then py_int (parts ! 1) else Inr 1) = Inr n" by blast
  from parse_price_part_error[OF this] assms(3) Some x show ?thesis
    by (auto simp: price_stage_def split: sum.splits)
qed

lemma price_stage_typed:
  assumes "price_stage m st = Inr st'" "well_typed (fst st)"
  shows "well_typed (fst st')"
proof (cases m)
  case None
  with assms show ?thesis by (simp add: price_stage_def)
next
  case (Some x)
  obtain g1 g0 where x: "x = (g1, g0)" by (cases x)
  from assms(1) Some x obtain pd where pd: "parse_price_part g1 = Inr pd"
    and st': "fst st' = dict_update (fst st) (map (\<lambda>(k, f). (k, VFloat f)) pd)"
    by (auto simp: price_stage_def split: sum.splits)
  from parse_price_part_shape[OF pd] show ?thesis
    using assms(2) by (auto simp: st' well_typed_unit well_typed_total)
qed

lemma extract_fields_error:
  assumes "no_separators text" "length text \<le> int_max_str_digits"
    "extract_fields strftime now text = Inl err"
  shows "err = OverflowError"
proof (cases "parse_relative_date now text")
  case (Inl e)
  with assms(3) have "err = e" by (simp add: extract_fields_def)
  with parse_relative_date_error[OF assms(2) Inl] show ?thesis by simp
next
  case (Inr x)
  obtain d clean where x: "x = (d, clean)" by (cases x)
  from parse_relative_date_text[of now "text" d clean] Inr x
  have c: "set clean \<subseteq> set text" "length clean \<le> length text" by auto
  from no_separators_subset[OF assms(1) c(1)] have ns: "no_separators clean" .
  from c(2) assms(2) have len: "length clean \<le> int_max_str_digits" by simp
  have "well_typed (fst ([(''timestamp'', VStr (strftime d))], clean))"
    by (simp add: well_typed_def dict_get_def is_count_def is_price_def)
  from quantity_stage_ok[OF len this] obtain st1 where
    q: "quantity_stage (re_search quantity_re clean)
          ([(''timestamp'', VStr (strftime d))], clean) = Inr st1" by blast
  from assms(3) Inr x q have "price_stage (re_search price_re clean) st1 = Inl err"
    by (auto simp: extract_fields_def split: sum.splits)
  from price_stage_error[OF ns len this] show ?thesis .
qed

lemma extract_fields_typed:
  assumes "length text \<le> int_max_str_digits" "extract_fields strftime now text = Inr results"
  shows "well_typed results"
proof -
  from assms(2) obtain d clean where p: "parse_relative_date now text = Inr (d, clean)"
    by (auto simp: extract_fields_def split: sum.splits)
  from parse_relative_date_text[OF p] assms(1) have len: "length clean \<le> int_max_str_digits"
    by simp
  have "well_typed (fst ([(''timestamp'', VStr (strftime d))], clean))"
    by (simp add: well_typed_def dict_get_def is_count_def is_price_def)
  from quantity_stage_ok[OF len this] obtain st1 where
    q: "quantity_stage (re_search quantity_re clean)
          ([(''timestamp'', VStr (strftime d))], clean) = Inr st1" and t1: "well_typed (fst st1)"
    by blast
  from assms(2) p q obtain r2 c2 where
    ps: "price_stage (re_search price_re clean) st1 = Inr (r2, c2)"
    and res: "results = dict_set (case infer_type c2 of None \<Rightarrow> r2
                 | Some t \<Rightarrow> dict_set r2 ''transaction_type'' (VStr t))
               ''item_name'' (VStr (item_name_of c2))"
    by (auto simp: extract_fields_def split: sum.splits)
  from price_stage_typed[OF ps t1] have "well_typed r2" by simp
  then show ?thesis unfolding res
    by (auto intro!: well_typed_other split: option.splits)
qed

section \<open>Exceptions: reconciliation\<close>

lemma truthy_count:
  "is_count (dict_get r k) \<Longrightarrow> truthy (get_or_none r k) \<Longrightarrow>
   \<exists>q. get_or_none r k = VInt q \<and> 0 < q"
  by (auto simp: is_count_def get_or_none_def split: option.splits pyval.splits)

lemma truthy_price:
  "is_price (dict_get r k) \<Longrightarrow> truthy (get_or_none r k) \<Longrightarrow> \<exists>f. get_or_none r k = VFloat f"
  by (auto simp: is_price_def get_or_none_def split: option.splits pyval.splits)

lemma reconcile_total_error:
  assumes "well_typed r" "reconcile_total A r = Inl err"
  shows "err = OverflowError"
proof -
  from assms(2) have q: "truthy (get_or_none r ''quantity'')"
    and u: "truthy (get_or_none r ''unit_price'')"
    and e: "py_mul (get_or_none r ''quantity'') (get_or_none r ''unit_price'') = Inl err"
    by (auto simp: reconcile_total_def Let_def map_sum_Inl split: if_splits)
  from truthy_count[OF _ q] assms(1) obtain n where n: "get_or_none r ''quantity'' = VInt n"
    by (auto simp: well_typed_def)
  from truthy_price[OF _ u] assms(1) obtain f where f: "get_or_none r ''unit_price'' = VFloat f"
    by (auto simp: well_typed_def)
  from e show ?thesis unfolding n f
    by (auto simp: map_sum_Inl float_mul_def split: sum.splits dest: float_of_int_error)
qed

lemma reconcile_unit_error:
  assumes "well_typed r0" "reconcile_unit A r0 r = Inl err"
  shows "err = OverflowError"
proof -
  from assms(2) have q: "truthy (get_or_none r0 ''quantity'')"
    and t: "truthy (get_or_none r0 ''total_price'')"
    by (auto simp: reconcile_unit_def Let_def split: if_splits)
  from truthy_count[OF _ q] assms(1) obtain n where
    n: "get_or_none r0 ''quantity'' = VInt n" "0 < n"
    by (auto simp: well_typed_def)
  from truthy_price[OF _ t] assms(1) obtain f where f: "get_or_none r0 ''total_price'' = VFloat f"
    by (auto simp: well_typed_def)
  have d: "float_div_int f n = Inl err \<Longrightarrow> err = OverflowError"
    using float_div_int_error[of n f err] n(2) by simp
  from assms(2) show ?thesis unfolding reconcile_unit_def Let_def n(1) f
    using n(2) by (auto simp: map_sum_Inl split: if_splits dest: d)
qed

lemma reconcile_error:
  assumes "well_typed r" "reconcile A r = Inl err"
  shows "err = OverflowError"
  using assms
  by (auto simp: reconcile_def split: sum.splits
      dest: reconcile_total_error reconcile_unit_error)

section \<open>Claim on exceptions\<close>

text \<open>
  Claim C4 says that \<^verbatim>\<open>parse_transaction\<close> returns a record for every text and never raises,
  and that a price token which fails to parse raises nothing past the price stage. A day
  count that reaches before year 1 raises \<^verbatim>\<open>OverflowError\<close>; and a price token whose count
  after the slash follows a separator U+001C raises \<^verbatim>\<open>ValueError\<close> from \<^verbatim>\<open>int\<close>, outside the
  \<^verbatim>\<open>try\<close> block, so past the price stage and past the parser.
\<close>

theorem parser_raises_counterexample:
  "parse_transaction sample_strftime sample_now ''9999999 hari yang lalu'' [] = Inl OverflowError
   \<and> parse_price_part (''5/'' @ [CHR 0x1C] @ ''2'') = Inl ValueError
   \<and> parse_transaction sample_strftime sample_now (''harga 5/'' @ [CHR 0x1C] @ ''2'') []
       = Inl ValueError"
  by code_simp

text \<open>
  Claim C4, amended. For every header list and every text of at most 4300 characters
  without the separators U+001C to U+001F, \<^verbatim>\<open>parse_transaction\<close> returns a record or raises
  \<^verbatim>\<open>OverflowError\<close> (from a day count, a quantity or a per-item count out of range) and
  nothing else; and when \<^verbatim>\<open>float\<close> rejects the numeric remainder of the price token, the
  price stage returns the record as it was, with neither a unit price nor a total price
  set, and raises nothing.
\<close>

theorem parser_errors:
  assumes "no_separators text" "length text \<le> int_max_str_digits"
  shows "(\<forall>err. parse_transaction strftime now text headers = Inl err \<longrightarrow> err = OverflowError)
     \<and> (\<forall>d clean g1 g0 st.
          parse_relative_date now text = Inr (d, clean)
          \<and> re_search price_re clean = Some (g1, g0)
          \<and> py_float (numeric_remainder g1) = Inl ValueError
          \<longrightarrow> price_stage (re_search price_re clean) st
                = Inr (fst st, remove_first g0 (snd st)))"
proof (intro conjI allI impI)
  fix err
  assume e: "parse_transaction strftime now text headers = Inl err"
  show "err = OverflowError"
  proof (cases "extract_fields strftime now text")
    case (Inl x)
    with e have "err = x" by (simp add: parse_transaction_def)
    with extract_fields_error[OF assms Inl] show ?thesis by simp
  next
    case (Inr results)
    with e have "reconcile (get_active_entities headers) results = Inl err"
      by (simp add: parse_transaction_def)
    from reconcile_error[OF extract_fields_typed[OF assms(2) Inr] this] show ?thesis .
  qed
next
  fix d clean g1 g0 st
  assume a: "parse_relative_date now text = Inr (d, clean)
          \<and> re_search price_re clean = Some (g1, g0)
          \<and> py_float (numeric_remainder g1) = Inl ValueError"
  from parse_relative_date_text[of now "text" d clean] a
  have c: "set clean \<subseteq> set text" "length clean \<le> length text" by auto
  from no_separators_subset[OF assms(1) c(1)] have ns: "no_separators clean" .
  from c(2) assms(2) have len: "length clean \<le> int_max_str_digits" by simp
  from price_token_count[OF ns len] a obtain n where g: "g1 \<noteq> []"
    and n: "(let parts = split_on CHR ''/'' (filter (\<lambda>c. c \<noteq> CHR '','') (lower g1))
              in if length parts > 1 then py_int (parts ! 1) else Inr 1) = Inr n"
    by blast
  from parse_price_part_float_error[OF n _ g] a have "parse_price_part g1 = Inr []" by simp
  with a show "price_stage (re_search price_re clean) st = Inr (fst st, remove_first g0 (snd st))"
    by (simp add: price_stage_def)
qed

text \<open>Claim C4, amended, at the text \<open>buku harga 1.2.3\<close>.\<close>

theorem parser_errors_witness:
  "no_separators ''buku harga 1.2.3''
   \<and> length ''buku harga 1.2.3'' \<le> int_max_str_digits
   \<and> parse_transaction sample_strftime sample_now ''buku harga 1.2.3'' [''item'', ''harga'']
       \<noteq> Inl ValueError
   \<and> py_float (numeric_remainder ''1.2.3'') = Inl ValueError
   \<and> price_stage (re_search price_re ''buku harga 1.2.3'') ([], ''buku harga 1.2.3'')
       = Inr ([], ''buku '')"
proof -
  have ns: "no_separators ''buku harga 1.2.3''" by code_simp
  have len: "length ''buku harga 1.2.3'' \<le> int_max_str_digits"
    by (simp add: int_max_str_digits_def)
  have d: "parse_relative_date sample_now ''buku harga 1.2.3''
      = Inr (sample_now, ''buku harga 1.2.3'')" by code_simp
  have m: "re_search price_re ''buku harga 1.2.3'' = Some (''1.2.3'', ''harga 1.2.3'')"
    by code_simp
  have f: "py_float (numeric_remainder ''1.2.3'') = Inl ValueError" by code_simp
  have r: "remove_first ''harga 1.2.3'' ''buku harga 1.2.3'' = ''buku ''" by code_simp
  note t = parser_errors[OF ns len, of sample_strftime sample_now "[''item'', ''harga'']"]
  from t have 1: "parse_transaction sample_strftime sample_now ''buku harga 1.2.3''
      [''item'', ''harga''] \<noteq> Inl ValueError" by auto
  from t d m f
  have "price_stage (re_search price_re ''buku harga 1.2.3'') ([], ''buku harga 1.2.3'')
      = Inr (fst ([], ''buku harga 1.2.3''),
             remove_first ''harga 1.2.3'' (snd ([]::pyval dict, ''buku harga 1.2.3'')))"
    by blast
  with r have 2: "price_stage (re_search price_re ''buku harga 1.2.3'')
      ([], ''buku harga 1.2.3'') = Inr ([], ''buku '')" by simp
  from ns len 1 f 2 show ?thesis by simp
qed

section \<open>Zero quantity: lemmas\<close>






section \<open>Claim on the zero quantity\<close>



end
